theory Spec2Isabelle
  imports Main
begin

section \<open>Account health state machine of the relay service\<close>

text \<open>
  The development embeds two services of the relay:
  \<^item> \<open>src/services/accountAutoDisableService.js\<close> (the disable path,
    \<open>handleErrorResponse\<close>), and
  \<^item> \<open>src/services/autoRecoveryService.js\<close> (the periodic recovery scanner, the
    consistency cleaner, the manual recovery path and the start/stop lifecycle), in its
    current revision (the one with \<open>_validateAccountData\<close> and
    \<open>recoverAccountFromTest\<close>).

  Asynchronous functions are modelled by explicit state passing over a \<open>world\<close>: the
  account records of every provider type, the disabled-account index, the chronological
  trace of the calls made to the external collaborators, and the number of clock reads.
  A thrown exception (a rejected promise) is the \<open>Inl\<close> branch of a sum carrying the
  error message. Logging has no effect on the world and is left out.
\<close>

subsection \<open>JavaScript values and account records\<close>

text \<open>
  The values that occur in account fields. \<open>JIso t\<close> stands for the string
  \<open>new Date(t).toISOString()\<close> of the instant \<open>t\<close> (milliseconds), and
  \<open>JSONText kvs\<close> for the string \<open>JSON.stringify\<close> returns for the object with the
  properties \<open>kvs\<close>; the formatting of both strings is not modelled.
\<close>

datatype jsval =
    JNull
  | JBool bool
  | JNum int
  | JStr string
  | JIso nat
  | JSONText "(string \<times> jsval) list"

type_synonym account = "string \<rightharpoonup> jsval"

text \<open>JavaScript truthiness of a property read (\<open>None\<close> is \<open>undefined\<close>), as used by \<open>!account.autoDisabledAt\<close>.\<close>

fun truthy :: "jsval option \<Rightarrow> bool" where
  "truthy None = False"
| "truthy (Some JNull) = False"
| "truthy (Some (JBool b)) = b"
| "truthy (Some (JNum n)) = (n \<noteq> 0)"
| "truthy (Some (JStr s)) = (s \<noteq> [])"
| "truthy (Some (JIso t)) = True"
| "truthy (Some (JSONText kvs)) = True"

subsection \<open>The world and the external collaborators\<close>

datatype call =
    GetAccount string string
  | UpdateAccount string string "(string \<times> jsval) list"
  | SMembers string
  | SAdd string string
  | SRem string string
  | SIsMember string string
  | TestConnection string string

record world =
  accounts :: "string \<Rightarrow> string \<Rightarrow> account option"
  index :: "string \<Rightarrow> string list"
  calls :: "(call \<times> bool) list"
  clockReads :: nat

datatype test_result = TestResult (success: bool) (errorText: string)

text \<open>
  The environment fixes what the services cannot control: the value of the \<open>n\<close>-th clock
  read, whether the \<open>n\<close>-th call to an external collaborator throws (and with which
  message), and what the connection probe of a provider type reports for an account.
\<close>

record env =
  clock :: "nat \<Rightarrow> nat"
  fault :: "nat \<Rightarrow> string option"
  probe :: "string \<Rightarrow> string \<Rightarrow> test_result"

definition readClock :: "env \<Rightarrow> world \<Rightarrow> nat \<times> world" where
  "readClock e w = (clock e (clockReads w), w\<lparr>clockReads := clockReads w + 1\<rparr>)"

definition logCall :: "call \<Rightarrow> bool \<Rightarrow> world \<Rightarrow> world" where
  "logCall c ok w = w\<lparr>calls := calls w @ [(c, ok)]\<rparr>"

text \<open>
  The Account Record Store is the eight account services (\<open>claudeAccountService\<close>,
  \<open>claudeConsoleAccountService\<close>, ...), whose \<open>getAccount(id)\<close> and
  \<open>updateAccount(id, partialFields)\<close> are called by the two services but are not part
  of the sources at hand. The three definitions below model them from the spec.
\<close>

text \<open>
  Modelled from the spec: the merge that \<open>updateAccount\<close> of an account service applies
  to the persisted record. Each partial field replaces the stored one; a field given
  \<open>null\<close> becomes absent (the data model knows a timestamp or string "or absent", and the
  re-admission clears fields "to absent, not empty-string").
\<close>

fun applyUpdates :: "(string \<times> jsval) list \<Rightarrow> account \<Rightarrow> account" where
  "applyUpdates [] a = a"
| "applyUpdates ((k, v) # us) a =
     applyUpdates us (if v = JNull then a(k := None) else a(k \<mapsto> v))"

text \<open>
  Modelled from the spec: \<open>getAccount(id)\<close> of the account service of provider type \<open>t\<close>;
  it returns the persisted record, \<open>None\<close> when the account has none, or throws.
\<close>

definition getAccount :: "env \<Rightarrow> string \<Rightarrow> string \<Rightarrow> world \<Rightarrow> (string + account option) \<times> world" where
  "getAccount e t accountId w =
     (case fault e (length (calls w)) of
        Some msg \<Rightarrow> (Inl msg, logCall (GetAccount t accountId) False w)
      | None \<Rightarrow> (Inr (accounts w t accountId), logCall (GetAccount t accountId) True w))"

text \<open>
  Modelled from the spec: \<open>updateAccount(id, partialFields)\<close> of the account service of
  provider type \<open>t\<close>. Records are created and destroyed only by the provisioning flows,
  so updating an account that has no record fails.
\<close>

definition updateAccount ::
  "env \<Rightarrow> string \<Rightarrow> string \<Rightarrow> (string \<times> jsval) list \<Rightarrow> world \<Rightarrow> (string + unit) \<times> world" where
  "updateAccount e t accountId updates w =
     (case fault e (length (calls w)) of
        Some msg \<Rightarrow> (Inl msg, logCall (UpdateAccount t accountId updates) False w)
      | None \<Rightarrow>
          (case accounts w t accountId of
             None \<Rightarrow> (Inl ''Account not found'', logCall (UpdateAccount t accountId updates) False w)
           | Some a \<Rightarrow>
               (Inr (),
                logCall (UpdateAccount t accountId updates) True
                  (w\<lparr>accounts := (accounts w)(t := (accounts w t)(accountId \<mapsto> applyUpdates updates a))\<rparr>))))"

text \<open>
  The Disabled-Account Index is one Redis set per provider type under the key
  \<open>auto_disabled_accounts:<type>\<close>; the Redis model and client are not part of the
  sources at hand. The three definitions below model the set operations \<open>members\<close>,
  \<open>add\<close> and \<open>remove\<close> from the spec. A set is kept as the list its enumeration
  returns.
\<close>

text \<open>Modelled from the spec: \<open>members(type)\<close>, the enumeration of the set (\<open>smembers\<close> of the Redis client).\<close>

definition smembers :: "env \<Rightarrow> string \<Rightarrow> world \<Rightarrow> (string + string list) \<times> world" where
  "smembers e t w =
     (case fault e (length (calls w)) of
        Some msg \<Rightarrow> (Inl msg, logCall (SMembers t) False w)
      | None \<Rightarrow> (Inr (index w t), logCall (SMembers t) True w))"

text \<open>Modelled from the spec: \<open>add(type, id)\<close> (\<open>sadd\<close> of the Redis model); adding a member twice keeps one entry.\<close>

definition sadd :: "env \<Rightarrow> string \<Rightarrow> string \<Rightarrow> world \<Rightarrow> (string + unit) \<times> world" where
  "sadd e t accountId w =
     (case fault e (length (calls w)) of
        Some msg \<Rightarrow> (Inl msg, logCall (SAdd t accountId) False w)
      | None \<Rightarrow>
          (Inr (),
           logCall (SAdd t accountId) True
             (w\<lparr>index := (index w)(t := (if accountId \<in> set (index w t) then index w t
                                          else index w t @ [accountId]))\<rparr>)))"

text \<open>Modelled from the spec: \<open>remove(type, id)\<close> (\<open>srem\<close> of the Redis client); removing a non-member changes nothing.\<close>

definition srem :: "env \<Rightarrow> string \<Rightarrow> string \<Rightarrow> world \<Rightarrow> (string + unit) \<times> world" where
  "srem e t accountId w =
     (case fault e (length (calls w)) of
        Some msg \<Rightarrow> (Inl msg, logCall (SRem t accountId) False w)
      | None \<Rightarrow>
          (Inr (),
           logCall (SRem t accountId) True
             (w\<lparr>index := (index w)(t := removeAll accountId (index w t))\<rparr>)))"

text \<open>
  \<open>client.sIsMember(key, id)\<close>, as the manual recovery path calls it. The client that
  \<open>redis.getClientSafe()\<close> returns is the ioredis client: this service calls the same
  object with the lower-case commands \<open>smembers\<close> and \<open>srem\<close>, and the maintenance script
  uses it with the ioredis call shapes \<open>scan(cursor, 'MATCH', ...)\<close> and
  \<open>pipeline().exec()\<close>. ioredis names the membership command \<open>sismember\<close>; the client has
  no property \<open>sIsMember\<close>. So the call never answers: it throws a \<open>TypeError\<close> before a
  command is sent, unless \<open>getClientSafe\<close> has thrown already.
\<close>

definition sIsMember :: "env \<Rightarrow> string \<Rightarrow> string \<Rightarrow> world \<Rightarrow> (string + bool) \<times> world" where
  "sIsMember e t accountId w =
     (case fault e (length (calls w)) of
        Some msg \<Rightarrow> (Inl msg, logCall (SIsMember t accountId) False w)
      | None \<Rightarrow>
          (Inl ''client.sIsMember is not a function'', logCall (SIsMember t accountId) False w))"

text \<open>
  Modelled from the spec: the Connection Probe (\<open>testAccountConnection\<close> of the
  Claude Console and Bedrock account services), which performs a round trip and reports
  success or failure, or throws.
\<close>

definition serviceTestAccountConnection ::
  "env \<Rightarrow> string \<Rightarrow> string \<Rightarrow> world \<Rightarrow> (string + test_result) \<times> world" where
  "serviceTestAccountConnection e t accountId w =
     (case fault e (length (calls w)) of
        Some msg \<Rightarrow> (Inl msg, logCall (TestConnection t accountId) False w)
      | None \<Rightarrow> (Inr (probe e t accountId), logCall (TestConnection t accountId) True w))"

subsection \<open>Dispatch by provider type\<close>

text \<open>The \<open>switch\<close> of \<open>_updateAccountByType\<close> and \<open>_getAccountByType\<close>: eight cases, otherwise a throw.\<close>

definition knownType :: "string \<Rightarrow> bool" where
  "knownType t =
     (t = ''claude-official'' \<or> t = ''claude-console'' \<or> t = ''gemini'' \<or> t = ''bedrock''
      \<or> t = ''azure-openai'' \<or> t = ''droid'' \<or> t = ''ccr'' \<or> t = ''openai-responses'')"

definition updateAccountByType ::
  "env \<Rightarrow> string \<Rightarrow> string \<Rightarrow> (string \<times> jsval) list \<Rightarrow> world \<Rightarrow> (string + unit) \<times> world" where
  "updateAccountByType e accountId accountType updates w =
     (if knownType accountType then updateAccount e accountType accountId updates w
      else (Inl (''Unknown account type: '' @ accountType), w))"

definition getAccountByType ::
  "env \<Rightarrow> string \<Rightarrow> string \<Rightarrow> world \<Rightarrow> (string + account option) \<times> world" where
  "getAccountByType e accountId accountType w =
     (if knownType accountType then getAccount e accountType accountId w
      else (Inl (''Unknown account type: '' @ accountType), w))"

subsection \<open>The disable path: \<open>handleErrorResponse\<close>\<close>

text \<open>Decimal rendering of a number inside a template literal.\<close>

fun digits :: "nat \<Rightarrow> string" where
  "digits n = (if n < 10 then [''0123456789'' ! n] else digits (n div 10) @ [''0123456789'' ! (n mod 10)])"

definition numberToString :: "int \<Rightarrow> string" where
  "numberToString i = (if i < 0 then ''-'' @ digits (nat (- i)) else digits (nat i))"

datatype disable_result =
    NotDisabled
  | Disabled string
  | DisableFailed string

definition disableReason :: "int \<Rightarrow> string \<Rightarrow> string" where
  "disableReason statusCode errorMessage =
     ''HTTP '' @ numberToString statusCode @ '': '' @ take 200 errorMessage"

definition disableUpdates ::
  "int \<Rightarrow> string \<Rightarrow> string \<Rightarrow> string \<Rightarrow> nat \<Rightarrow> nat \<Rightarrow> (string \<times> jsval) list" where
  "disableUpdates statusCode errorMessage apiUrl triggerType t1 t2 =
     [(''schedulable'', JBool False),
      (''autoDisabledAt'', JIso t1),
      (''autoDisabledReason'', JStr (disableReason statusCode errorMessage)),
      (''autoDisabledDetails'',
         JSONText [(''statusCode'', JNum statusCode),
                   (''errorMessage'', JStr errorMessage),
                   (''apiUrl'', JStr apiUrl),
                   (''triggerType'', JStr triggerType),
                   (''disabledAt'', JIso t2)])]"

text \<open>
  \<open>handleErrorResponse\<close> of the service as implemented: the record update and the index
  add sit in one \<open>try\<close> block whose \<open>catch\<close> returns \<open>{ disabled: false, error }\<close>.
\<close>

definition handleErrorResponse ::
  "env \<Rightarrow> string \<Rightarrow> string \<Rightarrow> int \<Rightarrow> string \<Rightarrow> string \<Rightarrow> string \<Rightarrow> world \<Rightarrow> disable_result \<times> world" where
  "handleErrorResponse e accountId accountType statusCode errorMessage apiUrl triggerType w =
     (if statusCode < 400 \<or> statusCode \<ge> 600 then (NotDisabled, w)
      else
        (let (t1, w1) = readClock e w;
             (t2, w2) = readClock e w1
         in case updateAccountByType e accountId accountType
                (disableUpdates statusCode errorMessage apiUrl triggerType t1 t2) w2 of
           (Inl err, w3) \<Rightarrow> (DisableFailed err, w3)
         | (Inr u, w3) \<Rightarrow>
             (case sadd e accountType accountId w3 of
                (Inl err, w4) \<Rightarrow> (DisableFailed err, w4)
              | (Inr u', w4) \<Rightarrow> (Disabled (disableReason statusCode errorMessage), w4))))"

text \<open>
  The listing of the same function in the design document has no \<open>try\<close> block: a failing
  update or index add rejects the returned promise.
\<close>

definition handleErrorResponse_draft ::
  "env \<Rightarrow> string \<Rightarrow> string \<Rightarrow> int \<Rightarrow> string \<Rightarrow> string \<Rightarrow> string \<Rightarrow> world
     \<Rightarrow> (string + disable_result) \<times> world" where
  "handleErrorResponse_draft e accountId accountType statusCode errorMessage apiUrl triggerType w =
     (if statusCode < 400 \<or> statusCode \<ge> 600 then (Inr NotDisabled, w)
      else
        (let (t1, w1) = readClock e w;
             (t2, w2) = readClock e w1
         in case updateAccountByType e accountId accountType
                (disableUpdates statusCode errorMessage apiUrl triggerType t1 t2) w2 of
           (Inl err, w3) \<Rightarrow> (Inl err, w3)
         | (Inr u, w3) \<Rightarrow>
             (case sadd e accountType accountId w3 of
                (Inl err, w4) \<Rightarrow> (Inl err, w4)
              | (Inr u', w4) \<Rightarrow> (Inr (Disabled (disableReason statusCode errorMessage)), w4))))"

subsection \<open>The recovery service: validation, probing, re-admission\<close>

definition accountTypes :: "string list" where
  "accountTypes =
     [''claude-official'', ''claude-console'', ''gemini'', ''bedrock'',
      ''azure-openai'', ''droid'', ''ccr'', ''openai-responses'']"

text \<open>\<open>_validateAccountData\<close>: any error while fetching the record is caught and reported as invalid.\<close>

definition validateAccountData :: "env \<Rightarrow> string \<Rightarrow> string \<Rightarrow> world \<Rightarrow> bool \<times> world" where
  "validateAccountData e accountId accountType w =
     (case getAccountByType e accountId accountType w of
        (Inl err, w1) \<Rightarrow> (False, w1)
      | (Inr None, w1) \<Rightarrow> (False, w1)
      | (Inr (Some a), w1) \<Rightarrow>
          (if \<not> truthy (a ''autoDisabledAt'') \<or> \<not> truthy (a ''autoDisabledReason'')
           then (False, w1) else (True, w1)))"

text \<open>\<open>_cleanupInconsistentAccount\<close>: removes the index entry; a failing removal is caught and logged.\<close>

definition cleanupInconsistentAccount :: "env \<Rightarrow> string \<Rightarrow> string \<Rightarrow> world \<Rightarrow> world" where
  "cleanupInconsistentAccount e accountId accountType w =
     (case srem e accountType accountId w of
        (Inl err, w1) \<Rightarrow> w1
      | (Inr u, w1) \<Rightarrow> w1)"

text \<open>\<open>_testAccountConnection\<close>: only two provider types have a probe; a throwing probe is a failed test.\<close>

definition testAccountConnection :: "env \<Rightarrow> string \<Rightarrow> string \<Rightarrow> world \<Rightarrow> test_result \<times> world" where
  "testAccountConnection e accountId accountType w =
     (if accountType = ''claude-console'' \<or> accountType = ''bedrock'' then
        (case serviceTestAccountConnection e accountType accountId w of
           (Inl err, w1) \<Rightarrow> (TestResult False err, w1)
         | (Inr r, w1) \<Rightarrow> (TestResult (success r) (errorText r), w1))
      else (TestResult False (''Test not implemented for '' @ accountType), w))"

definition recoverUpdates :: "nat \<Rightarrow> nat \<Rightarrow> (string \<times> jsval) list" where
  "recoverUpdates t1 t2 =
     [(''schedulable'', JBool True),
      (''autoDisabledAt'', JNull),
      (''autoDisabledReason'', JNull),
      (''autoDisabledDetails'', JNull),
      (''lastAutoRecoveryAttempt'', JIso t1),
      (''autoRecoveredAt'', JIso t2)]"

text \<open>\<open>_recoverAccount\<close>: no \<open>try\<close> block of its own, so a failing update or removal propagates.\<close>

definition recoverAccount :: "env \<Rightarrow> string \<Rightarrow> string \<Rightarrow> world \<Rightarrow> (string + unit) \<times> world" where
  "recoverAccount e accountId accountType w =
     (let (t1, w1) = readClock e w;
          (t2, w2) = readClock e w1
      in case updateAccountByType e accountId accountType (recoverUpdates t1 t2) w2 of
           (Inl err, w3) \<Rightarrow> (Inl err, w3)
         | (Inr u, w3) \<Rightarrow> srem e accountType accountId w3)"

definition updateLastRecoveryAttempt ::
  "env \<Rightarrow> string \<Rightarrow> string \<Rightarrow> world \<Rightarrow> (string + unit) \<times> world" where
  "updateLastRecoveryAttempt e accountId accountType w =
     (let (t, w1) = readClock e w
      in updateAccountByType e accountId accountType [(''lastAutoRecoveryAttempt'', JIso t)] w1)"

subsection \<open>The manual recovery path\<close>

datatype recover_result =
    NotAutoDisabled
  | TestSuccess
  | RecoverError string

text \<open>
  \<open>recoverAccountFromTest\<close>: the membership test, the early return for an account that
  is not in the index, the re-admission, and the \<open>catch\<close> that turns every error into
  the result \<open>{ recovered: false, reason: 'error', error }\<close>.
\<close>

definition recoverAccountFromTest ::
  "env \<Rightarrow> string \<Rightarrow> string \<Rightarrow> world \<Rightarrow> recover_result \<times> world" where
  "recoverAccountFromTest e accountId accountType w =
     (case sIsMember e accountType accountId w of
        (Inl err, w1) \<Rightarrow> (RecoverError err, w1)
      | (Inr isAutoDisabled, w1) \<Rightarrow>
          (if \<not> isAutoDisabled then (NotAutoDisabled, w1)
           else (case recoverAccount e accountId accountType w1 of
                   (Inl err, w2) \<Rightarrow> (RecoverError err, w2)
                 | (Inr u, w2) \<Rightarrow> (TestSuccess, w2))))"

subsection \<open>One recovery cycle\<close>

record counters =
  checked :: nat
  recovered :: nat
  failed :: nat
  cleaned :: nat

text \<open>The body of the \<open>for\<close> loop of \<open>checkAccountType\<close>, with its \<open>try\<close>/\<open>catch\<close>.\<close>

definition checkAccount ::
  "env \<Rightarrow> string \<Rightarrow> string \<Rightarrow> counters \<Rightarrow> world \<Rightarrow> counters \<times> world" where
  "checkAccount e accountType accountId c w =
     (let (isValid, w1) = validateAccountData e accountId accountType w
      in if \<not> isValid then
           (c\<lparr>cleaned := cleaned c + 1\<rparr>, cleanupInconsistentAccount e accountId accountType w1)
         else
           (case updateLastRecoveryAttempt e accountId accountType w1 of
              (Inl err, w2) \<Rightarrow> (c\<lparr>failed := failed c + 1\<rparr>, w2)
            | (Inr u, w2) \<Rightarrow>
                (let (testResult, w3) = testAccountConnection e accountId accountType w2
                 in if success testResult then
                      (case recoverAccount e accountId accountType w3 of
                         (Inl err, w4) \<Rightarrow> (c\<lparr>failed := failed c + 1\<rparr>, w4)
                       | (Inr u', w4) \<Rightarrow> (c\<lparr>recovered := recovered c + 1\<rparr>, w4))
                    else (c\<lparr>failed := failed c + 1\<rparr>, w3))))"

fun checkLoop :: "env \<Rightarrow> string \<Rightarrow> string list \<Rightarrow> counters \<Rightarrow> world \<Rightarrow> counters \<times> world" where
  "checkLoop e accountType [] c w = (c, w)"
| "checkLoop e accountType (accountId # ids) c w =
     (let (c1, w1) = checkAccount e accountType accountId c w
      in checkLoop e accountType ids c1 w1)"

text \<open>\<open>checkAccountType\<close>: a failing enumeration of the index propagates to the caller.\<close>

definition checkAccountType :: "env \<Rightarrow> string \<Rightarrow> world \<Rightarrow> (string + counters) \<times> world" where
  "checkAccountType e accountType w =
     (case smembers e accountType w of
        (Inl err, w1) \<Rightarrow> (Inl err, w1)
      | (Inr disabledAccountIds, w1) \<Rightarrow>
          (if disabledAccountIds = [] then
             (Inr \<lparr>checked = 0, recovered = 0, failed = 0, cleaned = 0\<rparr>, w1)
           else
             (let (c, w2) =
                    checkLoop e accountType disabledAccountIds
                      \<lparr>checked = length disabledAccountIds, recovered = 0, failed = 0, cleaned = 0\<rparr> w1
              in (Inr c, w2))))"

record totals =
  totalChecked :: nat
  totalRecovered :: nat
  totalFailed :: nat
  totalCleaned :: nat
  duration :: int

text \<open>The loop of \<open>runRecoveryCheck\<close> over the provider types; the accumulator holds the four running totals.\<close>

fun typesLoop :: "env \<Rightarrow> string list \<Rightarrow> counters \<Rightarrow> world \<Rightarrow> counters \<times> world" where
  "typesLoop e [] tot w = (tot, w)"
| "typesLoop e (accountType # ts) tot w =
     (case checkAccountType e accountType w of
        (Inl err, w1) \<Rightarrow> typesLoop e ts tot w1
      | (Inr result, w1) \<Rightarrow>
          typesLoop e ts
            \<lparr>checked = checked tot + checked result,
             recovered = recovered tot + recovered result,
             failed = failed tot + failed result,
             cleaned = cleaned tot + cleaned result\<rparr> w1)"

definition runRecoveryCheck :: "env \<Rightarrow> world \<Rightarrow> totals \<times> world" where
  "runRecoveryCheck e w =
     (let (startTime, w1) = readClock e w;
          (tot, w2) = typesLoop e accountTypes \<lparr>checked = 0, recovered = 0, failed = 0, cleaned = 0\<rparr> w1;
          (endTime, w3) = readClock e w2
      in (\<lparr>totalChecked = checked tot, totalRecovered = recovered tot,
           totalFailed = failed tot, totalCleaned = cleaned tot,
           duration = int endTime - int startTime\<rparr>, w3))"

text \<open>
  The counters that the calls of \<open>checkAccountType\<close> return during one pass of the loop
  of \<open>runRecoveryCheck\<close>, in order, each call starting in the world its predecessor
  left; a provider type whose call throws contributes no counters.
\<close>

fun typeResults :: "env \<Rightarrow> string list \<Rightarrow> world \<Rightarrow> counters list" where
  "typeResults e [] w = []"
| "typeResults e (accountType # ts) w =
     (case checkAccountType e accountType w of
        (Inl err, w1) \<Rightarrow> typeResults e ts w1
      | (Inr result, w1) \<Rightarrow> result # typeResults e ts w1)"

subsection \<open>The start-up cleanup\<close>




subsection \<open>The service lifecycle\<close>













subsection \<open>Observers of the call trace\<close>

text \<open>The provider types whose index was enumerated, in order of the calls.\<close>

fun enumerated :: "(call \<times> bool) list \<Rightarrow> string list" where
  "enumerated [] = []"
| "enumerated ((SMembers t, ok) # cs) = t # enumerated cs"
| "enumerated (c # cs) = enumerated cs"


text \<open>The field lists of the record updates requested for one account, whether or not they were applied.\<close>

fun recordWrites :: "string \<Rightarrow> string \<Rightarrow> (call \<times> bool) list \<Rightarrow> (string \<times> jsval) list list" where
  "recordWrites t accountId [] = []"
| "recordWrites t accountId ((UpdateAccount t' accountId' updates, ok) # cs) =
     (if t' = t \<and> accountId' = accountId then updates # recordWrites t accountId cs
      else recordWrites t accountId cs)"
| "recordWrites t accountId (c # cs) = recordWrites t accountId cs"

text \<open>
  The footprint of a step that works on one account: records and index memberships of
  all other accounts are untouched, the account itself is not added to the index, and
  the new calls neither enumerate an index nor request an update of another account.
\<close>

definition touchesOnly :: "string \<Rightarrow> string \<Rightarrow> world \<Rightarrow> world \<Rightarrow> bool" where
  "touchesOnly t' accountId' w w' \<longleftrightarrow>
     (\<forall>t accountId. t \<noteq> t' \<or> accountId \<noteq> accountId' \<longrightarrow> accounts w' t accountId = accounts w t accountId)
     \<and> (\<forall>t accountId. t \<noteq> t' \<or> accountId \<noteq> accountId' \<longrightarrow>
            (accountId \<in> set (index w' t)) = (accountId \<in> set (index w t)))
     \<and> (accountId' \<in> set (index w' t') \<longrightarrow> accountId' \<in> set (index w t'))
     \<and> (\<exists>tr. calls w' = calls w @ tr \<and> enumerated tr = []
            \<and> (\<forall>t accountId. t \<noteq> t' \<or> accountId \<noteq> accountId' \<longrightarrow> recordWrites t accountId tr = []))"

text \<open>A step leaves one account alone: its record, its index membership and the updates requested for it.\<close>

definition leavesAlone :: "string \<Rightarrow> string \<Rightarrow> world \<Rightarrow> world \<Rightarrow> bool" where
  "leavesAlone t accountId w w' \<longleftrightarrow>
     accounts w' t accountId = accounts w t accountId
     \<and> (accountId \<in> set (index w' t)) = (accountId \<in> set (index w t))
     \<and> recordWrites t accountId (calls w') = recordWrites t accountId (calls w)"

text \<open>
  The condition under which \<open>_validateAccountData\<close> reports a fetched record as
  inconsistent: no record, or a falsy \<open>autoDisabledAt\<close>, or a falsy \<open>autoDisabledReason\<close>.
\<close>

definition lacksFields :: "account option \<Rightarrow> bool" where
  "lacksFields r =
     (case r of
        None \<Rightarrow> True
      | Some a \<Rightarrow> \<not> truthy (a ''autoDisabledAt'') \<or> \<not> truthy (a ''autoDisabledReason''))"

subsection \<open>Sample environments and worlds\<close>

text \<open>An environment in which no external call fails and every probe succeeds.\<close>

definition quietEnv :: env where
  "quietEnv =
     \<lparr>clock = (\<lambda>n. 1000 + n), fault = (\<lambda>n. None), probe = (\<lambda>t a. TestResult True [])\<rparr>"

text \<open>The same environment, except that the second external call (call number 1) throws.\<close>

definition secondCallFails :: env where
  "secondCallFails =
     \<lparr>clock = (\<lambda>n. 1000 + n),
      fault = (\<lambda>n. if n = 1 then Some ''Connection is closed.'' else None),
      probe = (\<lambda>t a. TestResult True [])\<rparr>"

text \<open>One healthy Claude Console account \<open>X\<close>; nothing is quarantined.\<close>

definition healthyWorld :: world where
  "healthyWorld =
     \<lparr>accounts = (\<lambda>t. Map.empty)(''claude-console'' := [''X'' \<mapsto> [''schedulable'' \<mapsto> JBool True]]),
      index = (\<lambda>t. []),
      calls = [],
      clockReads = 0\<rparr>"

text \<open>Account \<open>X\<close> after a 404 on live traffic: the record is quarantined and the index holds it.\<close>

definition quarantinedWorld :: world where
  "quarantinedWorld =
     \<lparr>accounts = (\<lambda>t. Map.empty)(''claude-console'' :=
         [''X'' \<mapsto> [''schedulable'' \<mapsto> JBool False,
                     ''autoDisabledAt'' \<mapsto> JIso 500,
                     ''autoDisabledReason'' \<mapsto> JStr ''HTTP 404: not found'']]),
      index = (\<lambda>t. [])(''claude-console'' := [''X'']),
      calls = [],
      clockReads = 0\<rparr>"

text \<open>
  A drifted index: beside the quarantined \<open>X\<close> it holds \<open>Y\<close>, whose record lacks the
  auto-disable fields (an operator has made it unschedulable), and \<open>Gone\<close>, which has
  no record at all. Bedrock account \<open>B\<close> is quarantined, and its probe keeps failing in
  \<open>probeFailsEnv\<close>.
\<close>

definition driftedWorld :: world where
  "driftedWorld =
     \<lparr>accounts = (\<lambda>t. Map.empty)
        (''claude-console'' :=
           [''X'' \<mapsto> [''schedulable'' \<mapsto> JBool False,
                       ''autoDisabledAt'' \<mapsto> JIso 500,
                       ''autoDisabledReason'' \<mapsto> JStr ''HTTP 404: not found''],
            ''Y'' \<mapsto> [''schedulable'' \<mapsto> JBool False]],
         ''bedrock'' :=
           [''B'' \<mapsto> [''schedulable'' \<mapsto> JBool False,
                       ''autoDisabledAt'' \<mapsto> JIso 700,
                       ''autoDisabledReason'' \<mapsto> JStr ''HTTP 500: boom'']]),
      index = (\<lambda>t. [])(''claude-console'' := [''X'', ''Y'', ''Gone''], ''bedrock'' := [''B'']),
      calls = [],
      clockReads = 0\<rparr>"

definition probeFailsEnv :: env where
  "probeFailsEnv =
     \<lparr>clock = (\<lambda>n. 1000 + n), fault = (\<lambda>n. None),
      probe = (\<lambda>t a. TestResult (t \<noteq> ''bedrock'') ''HTTP 500'')\<rparr>"

text \<open>An environment in which only the third external call (call number 2) throws.\<close>

definition thirdCallFails :: env where
  "thirdCallFails =
     \<lparr>clock = (\<lambda>n. 1000 + n),
      fault = (\<lambda>n. if n = 2 then Some ''Connection is closed.'' else None),
      probe = (\<lambda>t a. TestResult True [])\<rparr>"

text \<open>An environment in which only the fifth external call (call number 4) throws.\<close>

definition fifthCallFails :: env where
  "fifthCallFails =
     \<lparr>clock = (\<lambda>n. 1000 + n),
      fault = (\<lambda>n. if n = 4 then Some ''Connection is closed.'' else None),
      probe = (\<lambda>t a. TestResult True [])\<rparr>"

text \<open>
  A stray index entry: the index of the first provider type holds \<open>Y\<close>, whose record has
  no auto-disable fields.
\<close>

definition strayWorld :: world where
  "strayWorld =
     \<lparr>accounts = (\<lambda>t. Map.empty)(''claude-official'' := [''Y'' \<mapsto> [''schedulable'' \<mapsto> JBool False]]),
      index = (\<lambda>t. [])(''claude-official'' := [''Y'']),
      calls = [],
      clockReads = 0\<rparr>"

section \<open>Verified properties\<close>

subsection \<open>Results of the primitive steps\<close>

lemma updateAccountByType_commit:
  assumes "knownType accountType" and "accounts w accountType accountId = Some a"
    and "fault e (length (calls w)) = None"
  shows "updateAccountByType e accountId accountType updates w =
     (Inr (),
      w\<lparr>accounts := (accounts w)(accountType := (accounts w accountType)(accountId \<mapsto> applyUpdates updates a)),
        calls := calls w @ [(UpdateAccount accountType accountId updates, True)]\<rparr>)"
  using assms by (simp add: updateAccountByType_def updateAccount_def logCall_def)

lemma updateAccountByType_unknown:
  "\<not> knownType accountType \<Longrightarrow>
   updateAccountByType e accountId accountType updates w =
     (Inl (''Unknown account type: '' @ accountType), w)"
  by (simp add: updateAccountByType_def)

lemma updateAccountByType_rejected:
  assumes "knownType accountType"
    and "accounts w accountType accountId = None \<or> fault e (length (calls w)) \<noteq> None"
  shows "\<exists>msg. updateAccountByType e accountId accountType updates w =
     (Inl msg, w\<lparr>calls := calls w @ [(UpdateAccount accountType accountId updates, False)]\<rparr>)"
  using assms
  by (auto simp: updateAccountByType_def updateAccount_def logCall_def split: option.splits)

lemma handleErrorResponse_out_of_range:
  "statusCode < 400 \<or> 599 < statusCode \<Longrightarrow>
   handleErrorResponse e accountId accountType statusCode errorMessage apiUrl triggerType w =
     (NotDisabled, w)"
  by (auto simp: handleErrorResponse_def)

lemma handleErrorResponse_disables:
  assumes "400 \<le> statusCode" and "statusCode \<le> 599" and "knownType accountType"
    and "accounts w accountType accountId = Some a"
    and "fault e (length (calls w)) = None" and "fault e (Suc (length (calls w))) = None"
  shows "handleErrorResponse e accountId accountType statusCode errorMessage apiUrl triggerType w =
     (Disabled (disableReason statusCode errorMessage),
      w\<lparr>clockReads := clockReads w + 2,
        accounts := (accounts w)(accountType := (accounts w accountType)(accountId \<mapsto>
            applyUpdates
              (disableUpdates statusCode errorMessage apiUrl triggerType
                 (clock e (clockReads w)) (clock e (clockReads w + 1))) a)),
        calls := calls w @
          [(UpdateAccount accountType accountId
              (disableUpdates statusCode errorMessage apiUrl triggerType
                 (clock e (clockReads w)) (clock e (clockReads w + 1))), True),
           (SAdd accountType accountId, True)],
        index := (index w)(accountType :=
            (if accountId \<in> set (index w accountType) then index w accountType
             else index w accountType @ [accountId]))\<rparr>)"
  using assms
  by (simp add: handleErrorResponse_def readClock_def updateAccountByType_def updateAccount_def
      sadd_def logCall_def)

lemma handleErrorResponse_unknown_type:
  assumes "\<not> knownType accountType" and "400 \<le> statusCode" and "statusCode \<le> 599"
  shows "handleErrorResponse e accountId accountType statusCode errorMessage apiUrl triggerType w =
     (DisableFailed (''Unknown account type: '' @ accountType), w\<lparr>clockReads := clockReads w + 2\<rparr>)"
  using assms
  by (simp add: handleErrorResponse_def readClock_def updateAccountByType_def)

subsection \<open>Status-code gating of the disable path\<close>

text \<open>
  Claim C1, as amended. A call of \<open>handleErrorResponse\<close> whose status code lies outside
  the inclusive range 400-599 returns the not-disabled result and leaves the whole world
  as it was: no record write, no index write, no call to a collaborator. A call whose
  status code lies inside the range, for a recognized provider type, an account that
  has a record, and a record store and an index that accept the two writes, updates the
  record and then adds the account to the index of its type.
\<close>

theorem C1_status_code_gating:
  "(statusCode < 400 \<or> 599 < statusCode \<longrightarrow>
      handleErrorResponse e accountId accountType statusCode errorMessage apiUrl triggerType w =
        (NotDisabled, w))
   \<and> (400 \<le> statusCode \<and> statusCode \<le> 599 \<and> knownType accountType
        \<and> accounts w accountType accountId = Some a
        \<and> fault e (length (calls w)) = None \<and> fault e (Suc (length (calls w))) = None \<longrightarrow>
      calls (snd (handleErrorResponse e accountId accountType statusCode errorMessage apiUrl triggerType w)) =
        calls w @
          [(UpdateAccount accountType accountId
              (disableUpdates statusCode errorMessage apiUrl triggerType
                 (clock e (clockReads w)) (clock e (clockReads w + 1))), True),
           (SAdd accountType accountId, True)]
      \<and> accounts (snd (handleErrorResponse e accountId accountType statusCode errorMessage apiUrl triggerType w))
            accountType accountId =
          Some (applyUpdates
                  (disableUpdates statusCode errorMessage apiUrl triggerType
                     (clock e (clockReads w)) (clock e (clockReads w + 1))) a)
      \<and> accountId \<in> set (index (snd (handleErrorResponse e accountId accountType statusCode errorMessage apiUrl triggerType w))
                              accountType))"
proof (intro conjI impI)
  assume "statusCode < 400 \<or> 599 < statusCode"
  then show "handleErrorResponse e accountId accountType statusCode errorMessage apiUrl triggerType w =
      (NotDisabled, w)"
    by (rule handleErrorResponse_out_of_range)
next
  assume h: "400 \<le> statusCode \<and> statusCode \<le> 599 \<and> knownType accountType
        \<and> accounts w accountType accountId = Some a
        \<and> fault e (length (calls w)) = None \<and> fault e (Suc (length (calls w))) = None"
  note r = handleErrorResponse_disables [of statusCode accountType w accountId a e errorMessage apiUrl triggerType]
  from h r show "calls (snd (handleErrorResponse e accountId accountType statusCode errorMessage apiUrl triggerType w)) =
        calls w @
          [(UpdateAccount accountType accountId
              (disableUpdates statusCode errorMessage apiUrl triggerType
                 (clock e (clockReads w)) (clock e (clockReads w + 1))), True),
           (SAdd accountType accountId, True)]"
    by simp
  from h r show "accounts (snd (handleErrorResponse e accountId accountType statusCode errorMessage apiUrl triggerType w))
            accountType accountId =
          Some (applyUpdates
                  (disableUpdates statusCode errorMessage apiUrl triggerType
                     (clock e (clockReads w)) (clock e (clockReads w + 1))) a)"
    by simp
  from h r show "accountId \<in> set (index (snd (handleErrorResponse e accountId accountType statusCode errorMessage apiUrl triggerType w))
                              accountType)"
    by simp
qed

theorem C1_status_code_gating_witness:
  "handleErrorResponse quietEnv ''X'' ''claude-console'' 301 ''moved'' ''https://relay.example/v1/messages'' ''request'' healthyWorld =
     (NotDisabled, healthyWorld)
   \<and> calls (snd (handleErrorResponse quietEnv ''X'' ''claude-console'' 599 ''timeout'' ''https://relay.example/v1/messages'' ''request'' healthyWorld)) =
       [(UpdateAccount ''claude-console'' ''X''
           (disableUpdates 599 ''timeout'' ''https://relay.example/v1/messages'' ''request'' 1000 1001), True),
        (SAdd ''claude-console'' ''X'', True)]
   \<and> ''X'' \<in> set (index (snd (handleErrorResponse quietEnv ''X'' ''claude-console'' 599 ''timeout'' ''https://relay.example/v1/messages'' ''request'' healthyWorld))
                       ''claude-console'')"
  using C1_status_code_gating [of 301 quietEnv "''X''" "''claude-console''" "''moved''"
      "''https://relay.example/v1/messages''" "''request''" healthyWorld]
    C1_status_code_gating [of 599 quietEnv "''X''" "''claude-console''" "''timeout''"
      "''https://relay.example/v1/messages''" "''request''" healthyWorld "[''schedulable'' \<mapsto> JBool True]"]
  by (simp add: quietEnv_def healthyWorld_def knownType_def)

text \<open>
  Claim C1 as stated fails: a status code inside the range does not always lead to a
  write. For a provider type outside the eight recognized ones (here \<open>gemini-api\<close>, which
  the maintenance scripts know but the service does not) the dispatch throws before any
  collaborator is called, and neither a record nor the index is written.
\<close>

theorem C1_counterexample:
  "fst (handleErrorResponse quietEnv ''Z'' ''gemini-api'' 500 ''upstream error'' ''https://gemini.example/v1'' ''request'' healthyWorld) =
     DisableFailed ''Unknown account type: gemini-api''
   \<and> accounts (snd (handleErrorResponse quietEnv ''Z'' ''gemini-api'' 500 ''upstream error'' ''https://gemini.example/v1'' ''request'' healthyWorld)) =
       accounts healthyWorld
   \<and> index (snd (handleErrorResponse quietEnv ''Z'' ''gemini-api'' 500 ''upstream error'' ''https://gemini.example/v1'' ''request'' healthyWorld)) =
       index healthyWorld
   \<and> calls (snd (handleErrorResponse quietEnv ''Z'' ''gemini-api'' 500 ''upstream error'' ''https://gemini.example/v1'' ''request'' healthyWorld)) = []"
  by (simp add: handleErrorResponse_def readClock_def updateAccountByType_def knownType_def
      quietEnv_def healthyWorld_def)

subsection \<open>What the disable path writes\<close>

lemma digits_404: "digits 404 = ''404''"
  by simp

text \<open>
  Claim C5, as amended. For a status code in 400-599, a recognized provider type, an
  account that has a record, and a record store and an index that accept the writes,
  \<open>handleErrorResponse\<close> reports \<open>disabled\<close> with the reason
  \<open>HTTP <statusCode>: <first 200 characters of the message>\<close>, hands the record store
  the fields \<open>schedulable = false\<close>, \<open>autoDisabledAt\<close> (the first clock reading of the call),
  \<open>autoDisabledReason\<close> (that reason) and \<open>autoDisabledDetails\<close> (the serialized object
  with the status code, the full message, the target URL, the trigger kind and a second
  clock reading), after which the record carries these four values, and then adds the
  account to the index of its type.
\<close>

theorem C5_disable_writes:
  assumes "400 \<le> statusCode" and "statusCode \<le> 599" and "knownType accountType"
    and "accounts w accountType accountId = Some a"
    and "fault e (length (calls w)) = None" and "fault e (Suc (length (calls w))) = None"
  shows "\<exists>w' a'.
     handleErrorResponse e accountId accountType statusCode errorMessage apiUrl triggerType w =
       (Disabled (''HTTP '' @ numberToString statusCode @ '': '' @ take 200 errorMessage), w')
     \<and> calls w' = calls w @
         [(UpdateAccount accountType accountId
             [(''schedulable'', JBool False),
              (''autoDisabledAt'', JIso (clock e (clockReads w))),
              (''autoDisabledReason'',
                 JStr (''HTTP '' @ numberToString statusCode @ '': '' @ take 200 errorMessage)),
              (''autoDisabledDetails'',
                 JSONText [(''statusCode'', JNum statusCode),
                           (''errorMessage'', JStr errorMessage),
                           (''apiUrl'', JStr apiUrl),
                           (''triggerType'', JStr triggerType),
                           (''disabledAt'', JIso (clock e (clockReads w + 1)))])], True),
          (SAdd accountType accountId, True)]
     \<and> accounts w' accountType accountId = Some a'
     \<and> a' ''schedulable'' = Some (JBool False)
     \<and> a' ''autoDisabledAt'' = Some (JIso (clock e (clockReads w)))
     \<and> a' ''autoDisabledReason'' =
         Some (JStr (''HTTP '' @ numberToString statusCode @ '': '' @ take 200 errorMessage))
     \<and> a' ''autoDisabledDetails'' =
         Some (JSONText [(''statusCode'', JNum statusCode),
                         (''errorMessage'', JStr errorMessage),
                         (''apiUrl'', JStr apiUrl),
                         (''triggerType'', JStr triggerType),
                         (''disabledAt'', JIso (clock e (clockReads w + 1)))])
     \<and> accountId \<in> set (index w' accountType)"
  using handleErrorResponse_disables [OF assms, of errorMessage apiUrl triggerType]
  by (simp add: disableUpdates_def disableReason_def)

theorem C5_disable_writes_witness:
  "fst (handleErrorResponse quietEnv ''X'' ''claude-console'' 404 ''not found'' ''https://relay.example/v1/messages'' ''request'' healthyWorld) =
     Disabled ''HTTP 404: not found''
   \<and> ''X'' \<in> set (index (snd (handleErrorResponse quietEnv ''X'' ''claude-console'' 404 ''not found'' ''https://relay.example/v1/messages'' ''request'' healthyWorld)) ''claude-console'')"
  using C5_disable_writes [of 404 "''claude-console''" healthyWorld "''X''"
      "[''schedulable'' \<mapsto> JBool True]" quietEnv "''not found''"
      "''https://relay.example/v1/messages''" "''request''"]
  by (auto simp: quietEnv_def healthyWorld_def knownType_def numberToString_def digits_404)

text \<open>
  Claim C5 as stated fails: a status code in 400-599 is not enough for the writes to
  happen. The scenario of the claim (a 404 with the message \<open>not found\<close>), sent for the
  provider type \<open>gemini-api\<close>, ends in the \<open>catch\<close> block: the result is not \<open>disabled\<close>,
  no update reaches a record store and the account is not added to any index.
\<close>

theorem C5_counterexample:
  "handleErrorResponse quietEnv ''X'' ''gemini-api'' 404 ''not found'' ''https://gemini.example/v1'' ''request'' healthyWorld =
     (DisableFailed ''Unknown account type: gemini-api'', healthyWorld\<lparr>clockReads := 2\<rparr>)
   \<and> calls (healthyWorld\<lparr>clockReads := 2\<rparr>) = []
   \<and> ''X'' \<notin> set (index (healthyWorld\<lparr>clockReads := 2\<rparr>) ''gemini-api'')"
  by (simp add: handleErrorResponse_def readClock_def updateAccountByType_def knownType_def
      quietEnv_def healthyWorld_def)

subsection \<open>Unrecognized provider types\<close>

text \<open>
  Claim C8, as amended. For a provider type that is not one of the eight recognized
  ones, a call of \<open>handleErrorResponse\<close> writes nothing, whatever the status code: the
  account records, the index and the trace of collaborator calls are what they were,
  and the call never reports \<open>disabled\<close>. When the status code lies in 400-599 the call
  fails with the input error \<open>Unknown account type: <type>\<close>: the implemented service
  returns it as the error of a failed disable, the listing of the design document
  throws it. When the status code lies outside 400-599 the call returns the plain
  not-disabled result: the range check comes first and the provider type is not looked
  at.
\<close>

theorem C8_unknown_type_no_write:
  assumes "\<not> knownType accountType"
  shows "accounts (snd (handleErrorResponse e accountId accountType statusCode errorMessage apiUrl triggerType w)) = accounts w
     \<and> index (snd (handleErrorResponse e accountId accountType statusCode errorMessage apiUrl triggerType w)) = index w
     \<and> calls (snd (handleErrorResponse e accountId accountType statusCode errorMessage apiUrl triggerType w)) = calls w
     \<and> (\<forall>reason. fst (handleErrorResponse e accountId accountType statusCode errorMessage apiUrl triggerType w) \<noteq> Disabled reason)
     \<and> (400 \<le> statusCode \<and> statusCode \<le> 599 \<longrightarrow>
          fst (handleErrorResponse e accountId accountType statusCode errorMessage apiUrl triggerType w) =
            DisableFailed (''Unknown account type: '' @ accountType)
          \<and> fst (handleErrorResponse_draft e accountId accountType statusCode errorMessage apiUrl triggerType w) =
            Inl (''Unknown account type: '' @ accountType))
     \<and> (statusCode < 400 \<or> 599 < statusCode \<longrightarrow>
          handleErrorResponse e accountId accountType statusCode errorMessage apiUrl triggerType w =
            (NotDisabled, w)
          \<and> handleErrorResponse_draft e accountId accountType statusCode errorMessage apiUrl triggerType w =
            (Inr NotDisabled, w))
     \<and> accounts (snd (handleErrorResponse_draft e accountId accountType statusCode errorMessage apiUrl triggerType w)) = accounts w
     \<and> index (snd (handleErrorResponse_draft e accountId accountType statusCode errorMessage apiUrl triggerType w)) = index w
     \<and> calls (snd (handleErrorResponse_draft e accountId accountType statusCode errorMessage apiUrl triggerType w)) = calls w"
  using assms
  by (auto simp: handleErrorResponse_def handleErrorResponse_draft_def readClock_def
      updateAccountByType_def)

theorem C8_unknown_type_no_write_witness:
  "\<not> knownType ''gemini-api''
   \<and> fst (handleErrorResponse quietEnv ''X'' ''gemini-api'' 429 ''rate limited'' ''https://gemini.example/v1'' ''test'' healthyWorld) =
       DisableFailed ''Unknown account type: gemini-api''
   \<and> calls (snd (handleErrorResponse quietEnv ''X'' ''gemini-api'' 429 ''rate limited'' ''https://gemini.example/v1'' ''test'' healthyWorld)) = []
   \<and> handleErrorResponse quietEnv ''X'' ''gemini-api'' 302 ''moved'' ''https://gemini.example/v1'' ''test'' healthyWorld =
       (NotDisabled, healthyWorld)"
  using C8_unknown_type_no_write [of "''gemini-api''" quietEnv "''X''" 429 "''rate limited''"
      "''https://gemini.example/v1''" "''test''" healthyWorld]
    C8_unknown_type_no_write [of "''gemini-api''" quietEnv "''X''" 302 "''moved''"
      "''https://gemini.example/v1''" "''test''" healthyWorld]
  by (simp add: knownType_def healthyWorld_def)

text \<open>
  Claim C8 as stated fails in its first part: a call with an unrecognized provider type
  is not always an input error. With the status code 200 the call for the provider type
  \<open>gemini-api\<close> returns the plain not-disabled result, without an error, exactly as the
  call for the recognized type \<open>claude-console\<close> does; the listing of the design
  document returns it too and does not throw.
\<close>

theorem C8_counterexample:
  "handleErrorResponse quietEnv ''X'' ''gemini-api'' 200 ''OK'' ''https://gemini.example/v1'' ''request'' healthyWorld =
     (NotDisabled, healthyWorld)
   \<and> handleErrorResponse_draft quietEnv ''X'' ''gemini-api'' 200 ''OK'' ''https://gemini.example/v1'' ''request'' healthyWorld =
     (Inr NotDisabled, healthyWorld)
   \<and> handleErrorResponse quietEnv ''X'' ''claude-console'' 200 ''OK'' ''https://gemini.example/v1'' ''request'' healthyWorld =
     (NotDisabled, healthyWorld)"
  by (simp add: handleErrorResponse_def handleErrorResponse_draft_def)

subsection \<open>Order of the record update and the index operation\<close>

lemma recoverAccount_commit:
  assumes "knownType accountType" and "accounts w accountType accountId = Some a"
    and "fault e (length (calls w)) = None"
  shows "recoverAccount e accountId accountType w =
     srem e accountType accountId
       (w\<lparr>clockReads := clockReads w + 2,
          accounts := (accounts w)(accountType := (accounts w accountType)(accountId \<mapsto>
              applyUpdates (recoverUpdates (clock e (clockReads w)) (clock e (clockReads w + 1))) a)),
          calls := calls w @
            [(UpdateAccount accountType accountId
                (recoverUpdates (clock e (clockReads w)) (clock e (clockReads w + 1))), True)]\<rparr>)"
  using assms
  by (simp add: recoverAccount_def readClock_def updateAccountByType_def updateAccount_def logCall_def)

lemma recoverAccount_rejected:
  assumes "\<not> (knownType accountType \<and> accounts w accountType accountId \<noteq> None
              \<and> fault e (length (calls w)) = None)"
  shows "\<exists>msg. recoverAccount e accountId accountType w =
     (Inl msg,
      w\<lparr>clockReads := clockReads w + 2,
        calls := calls w @
          (if knownType accountType
           then [(UpdateAccount accountType accountId
                    (recoverUpdates (clock e (clockReads w)) (clock e (clockReads w + 1))), False)]
           else [])\<rparr>)"
  using assms
  by (auto simp: recoverAccount_def readClock_def updateAccountByType_def updateAccount_def
      logCall_def split: option.splits)

lemma handleErrorResponse_rejected:
  assumes "\<not> (knownType accountType \<and> accounts w accountType accountId \<noteq> None
              \<and> fault e (length (calls w)) = None)"
    and "400 \<le> statusCode" and "statusCode \<le> 599"
  shows "\<exists>msg. handleErrorResponse e accountId accountType statusCode errorMessage apiUrl triggerType w =
     (DisableFailed msg,
      w\<lparr>clockReads := clockReads w + 2,
        calls := calls w @
          (if knownType accountType
           then [(UpdateAccount accountType accountId
                    (disableUpdates statusCode errorMessage apiUrl triggerType
                       (clock e (clockReads w)) (clock e (clockReads w + 1))), False)]
           else [])\<rparr>)"
  using assms
  by (auto simp: handleErrorResponse_def readClock_def updateAccountByType_def updateAccount_def
      logCall_def split: option.splits)

lemma handleErrorResponse_committed:
  assumes "knownType accountType" and "accounts w accountType accountId = Some a"
    and "fault e (length (calls w)) = None"
    and "400 \<le> statusCode" and "statusCode \<le> 599"
  shows "handleErrorResponse e accountId accountType statusCode errorMessage apiUrl triggerType w =
     (case sadd e accountType accountId
        (w\<lparr>clockReads := clockReads w + 2,
           accounts := (accounts w)(accountType := (accounts w accountType)(accountId \<mapsto>
               applyUpdates
                 (disableUpdates statusCode errorMessage apiUrl triggerType
                    (clock e (clockReads w)) (clock e (clockReads w + 1))) a)),
           calls := calls w @
             [(UpdateAccount accountType accountId
                 (disableUpdates statusCode errorMessage apiUrl triggerType
                    (clock e (clockReads w)) (clock e (clockReads w + 1))), True)]\<rparr>) of
        (Inl err, w4) \<Rightarrow> (DisableFailed err, w4)
      | (Inr u, w4) \<Rightarrow> (Disabled (disableReason statusCode errorMessage), w4))"
  using assms
  by (simp add: handleErrorResponse_def readClock_def updateAccountByType_def updateAccount_def
      logCall_def)

text \<open>
  Claim C6, as amended. On the disable path and on the re-admission path the index
  operation is attempted only after the record update has been applied: when the update
  commits, the new part of the call trace is the successful update followed by the index
  add (on disable) or the index removal (on re-admission), and the record holds the
  updated fields whether or not the index operation then succeeds; when the update does
  not commit, no index operation is attempted and the index is unchanged. On the disable
  path the call reports \<open>disabled\<close> only when the index add succeeded as well: if the add
  fails after the update committed, the call reports a failed disable carrying the
  error of the index, and the record stays updated.
\<close>

theorem C6_update_before_index:
  fixes e :: env and w :: world and statusCode :: int
    and accountId accountType errorMessage apiUrl triggerType :: string
  defines "n \<equiv> length (calls w)"
  defines "dUps \<equiv> disableUpdates statusCode errorMessage apiUrl triggerType
                    (clock e (clockReads w)) (clock e (clockReads w + 1))"
  defines "rUps \<equiv> recoverUpdates (clock e (clockReads w)) (clock e (clockReads w + 1))"
  defines "H \<equiv> handleErrorResponse e accountId accountType statusCode errorMessage apiUrl triggerType w"
  defines "R \<equiv> recoverAccount e accountId accountType w"
  assumes range: "400 \<le> statusCode" "statusCode \<le> 599"
  shows "(knownType accountType \<and> accounts w accountType accountId = Some a \<and> fault e n = None \<longrightarrow>
            calls (snd H) = calls w @ [(UpdateAccount accountType accountId dUps, True),
                                       (SAdd accountType accountId, fault e (Suc n) = None)]
          \<and> accounts (snd H) accountType accountId = Some (applyUpdates dUps a)
          \<and> fst H = (case fault e (Suc n) of
                       None \<Rightarrow> Disabled (disableReason statusCode errorMessage)
                     | Some msg \<Rightarrow> DisableFailed msg)
          \<and> calls (snd R) = calls w @ [(UpdateAccount accountType accountId rUps, True),
                                       (SRem accountType accountId, fault e (Suc n) = None)]
          \<and> accounts (snd R) accountType accountId = Some (applyUpdates rUps a)
          \<and> fst R = (case fault e (Suc n) of None \<Rightarrow> Inr () | Some msg \<Rightarrow> Inl msg))
     \<and> (\<not> (knownType accountType \<and> accounts w accountType accountId \<noteq> None \<and> fault e n = None) \<longrightarrow>
            (calls (snd H) = calls w \<or> calls (snd H) = calls w @ [(UpdateAccount accountType accountId dUps, False)])
          \<and> index (snd H) = index w \<and> accounts (snd H) = accounts w
          \<and> (\<exists>msg. fst H = DisableFailed msg)
          \<and> (calls (snd R) = calls w \<or> calls (snd R) = calls w @ [(UpdateAccount accountType accountId rUps, False)])
          \<and> index (snd R) = index w \<and> accounts (snd R) = accounts w
          \<and> (\<exists>msg. fst R = Inl msg))"
proof (intro conjI impI)
  assume c: "knownType accountType \<and> accounts w accountType accountId = Some a \<and> fault e n = None"
  then have k: "knownType accountType" and a: "accounts w accountType accountId = Some a"
    and f: "fault e (length (calls w)) = None"
    by (simp_all add: n_def)
  have hEq: "H = (case sadd e accountType accountId
        (w\<lparr>clockReads := clockReads w + 2,
           accounts := (accounts w)(accountType := (accounts w accountType)(accountId \<mapsto> applyUpdates dUps a)),
           calls := calls w @ [(UpdateAccount accountType accountId dUps, True)]\<rparr>) of
        (Inl err, w4) \<Rightarrow> (DisableFailed err, w4)
      | (Inr u, w4) \<Rightarrow> (Disabled (disableReason statusCode errorMessage), w4))"
    unfolding H_def dUps_def by (rule handleErrorResponse_committed [OF k a f range])
  have rEq: "R = srem e accountType accountId
       (w\<lparr>clockReads := clockReads w + 2,
          accounts := (accounts w)(accountType := (accounts w accountType)(accountId \<mapsto> applyUpdates rUps a)),
          calls := calls w @ [(UpdateAccount accountType accountId rUps, True)]\<rparr>)"
    unfolding R_def rUps_def by (rule recoverAccount_commit [OF k a f])
  show "calls (snd H) = calls w @ [(UpdateAccount accountType accountId dUps, True),
                                    (SAdd accountType accountId, fault e (Suc n) = None)]"
    by (simp add: hEq sadd_def logCall_def n_def split: option.splits)
  show "accounts (snd H) accountType accountId = Some (applyUpdates dUps a)"
    by (simp add: hEq sadd_def logCall_def n_def split: option.splits)
  show "fst H = (case fault e (Suc n) of
                   None \<Rightarrow> Disabled (disableReason statusCode errorMessage)
                 | Some msg \<Rightarrow> DisableFailed msg)"
    by (simp add: hEq sadd_def logCall_def n_def split: option.splits)
  show "calls (snd R) = calls w @ [(UpdateAccount accountType accountId rUps, True),
                                    (SRem accountType accountId, fault e (Suc n) = None)]"
    by (simp add: rEq srem_def logCall_def n_def split: option.splits)
  show "accounts (snd R) accountType accountId = Some (applyUpdates rUps a)"
    by (simp add: rEq srem_def logCall_def n_def split: option.splits)
  show "fst R = (case fault e (Suc n) of None \<Rightarrow> Inr () | Some msg \<Rightarrow> Inl msg)"
    by (simp add: rEq srem_def logCall_def n_def split: option.splits)
next
  assume nc: "\<not> (knownType accountType \<and> accounts w accountType accountId \<noteq> None \<and> fault e n = None)"
  then have nc': "\<not> (knownType accountType \<and> accounts w accountType accountId \<noteq> None
              \<and> fault e (length (calls w)) = None)"
    by (simp add: n_def)
  from handleErrorResponse_rejected [OF nc' range, of errorMessage apiUrl triggerType]
  obtain hm where hEq: "H = (DisableFailed hm,
      w\<lparr>clockReads := clockReads w + 2,
        calls := calls w @
          (if knownType accountType then [(UpdateAccount accountType accountId dUps, False)] else [])\<rparr>)"
    unfolding H_def dUps_def by blast
  from recoverAccount_rejected [OF nc']
  obtain rm where rEq: "R = (Inl rm,
      w\<lparr>clockReads := clockReads w + 2,
        calls := calls w @
          (if knownType accountType then [(UpdateAccount accountType accountId rUps, False)] else [])\<rparr>)"
    unfolding R_def rUps_def by blast
  show "calls (snd H) = calls w \<or> calls (snd H) = calls w @ [(UpdateAccount accountType accountId dUps, False)]"
    by (simp add: hEq)
  show "index (snd H) = index w" by (simp add: hEq)
  show "accounts (snd H) = accounts w" by (simp add: hEq)
  show "\<exists>msg. fst H = DisableFailed msg" by (simp add: hEq)
  show "calls (snd R) = calls w \<or> calls (snd R) = calls w @ [(UpdateAccount accountType accountId rUps, False)]"
    by (simp add: rEq)
  show "index (snd R) = index w" by (simp add: rEq)
  show "accounts (snd R) = accounts w" by (simp add: rEq)
  show "\<exists>msg. fst R = Inl msg" by (simp add: rEq)
qed

theorem C6_update_before_index_witness:
  "calls (snd (handleErrorResponse secondCallFails ''X'' ''claude-console'' 503 ''unavailable'' ''https://relay.example/v1/messages'' ''request'' healthyWorld)) =
     [(UpdateAccount ''claude-console'' ''X''
         (disableUpdates 503 ''unavailable'' ''https://relay.example/v1/messages'' ''request'' 1000 1001), True),
      (SAdd ''claude-console'' ''X'', False)]
   \<and> calls (snd (recoverAccount secondCallFails ''X'' ''claude-console'' healthyWorld)) =
     [(UpdateAccount ''claude-console'' ''X'' (recoverUpdates 1000 1001), True),
      (SRem ''claude-console'' ''X'', False)]
   \<and> index (snd (handleErrorResponse quietEnv ''X'' ''bedrock'' 503 ''unavailable'' ''AWS Bedrock API'' ''test'' healthyWorld)) ''bedrock'' = []"
  using C6_update_before_index [where statusCode = 503 and accountType = "''claude-console''"
      and w = healthyWorld and accountId = "''X''" and a = "[''schedulable'' \<mapsto> JBool True]"
      and e = secondCallFails and errorMessage = "''unavailable''"
      and apiUrl = "''https://relay.example/v1/messages''" and triggerType = "''request''"]
    C6_update_before_index [where statusCode = 503 and accountType = "''bedrock''"
      and w = healthyWorld and accountId = "''X''" and a = "[''schedulable'' \<mapsto> JBool True]"
      and e = quietEnv and errorMessage = "''unavailable''"
      and apiUrl = "''AWS Bedrock API''" and triggerType = "''test''"]
  by (simp add: secondCallFails_def quietEnv_def healthyWorld_def knownType_def)

text \<open>
  Claim C6 as stated fails in its last part. With a record store that accepts the update
  and an index whose add then throws, the implemented service returns
  \<open>{ disabled: false, error }\<close> although the record update has committed (the record of
  \<open>X\<close> is no longer schedulable and the index does not hold \<open>X\<close>); the listing of the
  design document rejects with the same error. Neither reports success.
\<close>

theorem C6_counterexample:
  "fst (handleErrorResponse secondCallFails ''X'' ''claude-console'' 404 ''not found'' ''https://relay.example/v1/messages'' ''request'' healthyWorld) =
     DisableFailed ''Connection is closed.''
   \<and> fst (handleErrorResponse_draft secondCallFails ''X'' ''claude-console'' 404 ''not found'' ''https://relay.example/v1/messages'' ''request'' healthyWorld) =
     Inl ''Connection is closed.''
   \<and> calls (snd (handleErrorResponse secondCallFails ''X'' ''claude-console'' 404 ''not found'' ''https://relay.example/v1/messages'' ''request'' healthyWorld)) =
     [(UpdateAccount ''claude-console'' ''X''
         (disableUpdates 404 ''not found'' ''https://relay.example/v1/messages'' ''request'' 1000 1001), True),
      (SAdd ''claude-console'' ''X'', False)]
   \<and> map_option (\<lambda>a. a ''schedulable'')
        (accounts (snd (handleErrorResponse secondCallFails ''X'' ''claude-console'' 404 ''not found'' ''https://relay.example/v1/messages'' ''request'' healthyWorld))
           ''claude-console'' ''X'') = Some (Some (JBool False))
   \<and> index (snd (handleErrorResponse secondCallFails ''X'' ''claude-console'' 404 ''not found'' ''https://relay.example/v1/messages'' ''request'' healthyWorld))
        ''claude-console'' = []"
  by (simp add: handleErrorResponse_def handleErrorResponse_draft_def readClock_def
      updateAccountByType_def knownType_def updateAccount_def sadd_def logCall_def
      secondCallFails_def healthyWorld_def disableUpdates_def)

subsection \<open>Re-admission\<close>

lemma validateAccountData_frame:
  "accounts (snd (validateAccountData e accountId accountType w)) = accounts w
   \<and> index (snd (validateAccountData e accountId accountType w)) = index w
   \<and> clockReads (snd (validateAccountData e accountId accountType w)) = clockReads w"
  by (simp add: validateAccountData_def getAccountByType_def getAccount_def logCall_def
      split: option.splits)

lemma testAccountConnection_frame:
  "accounts (snd (testAccountConnection e accountId accountType w)) = accounts w
   \<and> index (snd (testAccountConnection e accountId accountType w)) = index w
   \<and> clockReads (snd (testAccountConnection e accountId accountType w)) = clockReads w"
  by (simp add: testAccountConnection_def serviceTestAccountConnection_def logCall_def
      split: option.splits)

lemma updateLastRecoveryAttempt_clock:
  "clockReads (snd (updateLastRecoveryAttempt e accountId accountType w)) = clockReads w + 1"
  by (simp add: updateLastRecoveryAttempt_def readClock_def updateAccountByType_def
      updateAccount_def logCall_def split: option.splits)

lemma recoverAccount_success:
  assumes "recoverAccount e accountId accountType w = (Inr u, w')"
  shows "\<exists>a. accounts w accountType accountId = Some a
     \<and> accounts w' accountType accountId =
         Some (applyUpdates (recoverUpdates (clock e (clockReads w)) (clock e (clockReads w + 1))) a)
     \<and> index w' accountType = removeAll accountId (index w accountType)"
  using assms
  by (auto simp: recoverAccount_def readClock_def updateAccountByType_def updateAccount_def
      srem_def logCall_def split: option.splits if_splits)

lemma readmitted_fields:
  "applyUpdates (recoverUpdates t1 t2) a ''autoDisabledAt'' = None
   \<and> applyUpdates (recoverUpdates t1 t2) a ''autoDisabledReason'' = None
   \<and> applyUpdates (recoverUpdates t1 t2) a ''autoDisabledDetails'' = None
   \<and> applyUpdates (recoverUpdates t1 t2) a ''schedulable'' = Some (JBool True)
   \<and> applyUpdates (recoverUpdates t1 t2) a ''lastAutoRecoveryAttempt'' = Some (JIso t1)
   \<and> applyUpdates (recoverUpdates t1 t2) a ''autoRecoveredAt'' = Some (JIso t2)"
  by (simp add: recoverUpdates_def)

lemma checkAccount_recovered:
  assumes "checkAccount e accountType accountId c w = (c', w')"
    and "recovered c' = recovered c + 1"
  shows "\<exists>w3. recoverAccount e accountId accountType w3 = (Inr (), w')
     \<and> clockReads w3 = clockReads w + 1"
proof -
  obtain isValid w1 where v: "validateAccountData e accountId accountType w = (isValid, w1)"
    by (cases "validateAccountData e accountId accountType w")
  obtain r2 w2 where u: "updateLastRecoveryAttempt e accountId accountType w1 = (r2, w2)"
    by (cases "updateLastRecoveryAttempt e accountId accountType w1")
  obtain tr w3 where t: "testAccountConnection e accountId accountType w2 = (tr, w3)"
    by (cases "testAccountConnection e accountId accountType w2")
  obtain r4 w4 where r: "recoverAccount e accountId accountType w3 = (r4, w4)"
    by (cases "recoverAccount e accountId accountType w3")
  have c1: "clockReads w1 = clockReads w"
    using validateAccountData_frame [of e accountId accountType w] v by simp
  have c2: "clockReads w2 = clockReads w1 + 1"
    using updateLastRecoveryAttempt_clock [of e accountId accountType w1] u by simp
  have c3: "clockReads w3 = clockReads w2"
    using testAccountConnection_frame [of e accountId accountType w2] t by simp
  from assms v u t r have "r4 = Inr () \<and> w4 = w'"
    by (auto simp: checkAccount_def split: if_splits sum.splits)
  with r c1 c2 c3 show ?thesis by auto
qed

text \<open>
  Claim C2. After a successful re-admission by \<open>_recoverAccount\<close>, from whichever
  caller and in whichever world it was started, the record of the account has no
  \<open>autoDisabledAt\<close>, no \<open>autoDisabledReason\<close> and no \<open>autoDisabledDetails\<close> field
  (absent, not the empty string), \<open>schedulable\<close> is \<open>true\<close>, \<open>lastAutoRecoveryAttempt\<close>
  and \<open>autoRecoveredAt\<close> hold the two clock readings taken by the call, and the account
  is not in the index of its type. The scheduled path reaches it in an iteration of
  \<open>checkAccountType\<close> that counts the account as recovered; there the two readings
  follow the one taken for the attempt stamp. The manual path calls the same function
  after its membership test; with the Redis client at hand that test throws, so the
  manual path does not get as far as the re-admission.
\<close>

theorem C2_recovery_clears_fields:
  "(recoverAccount e accountId accountType w = (Inr u, w') \<longrightarrow>
      (\<exists>a'. accounts w' accountType accountId = Some a'
         \<and> a' ''autoDisabledAt'' = None \<and> a' ''autoDisabledReason'' = None
         \<and> a' ''autoDisabledDetails'' = None
         \<and> a' ''autoDisabledAt'' \<noteq> Some (JStr []) \<and> a' ''autoDisabledReason'' \<noteq> Some (JStr [])
         \<and> a' ''autoDisabledDetails'' \<noteq> Some (JStr [])
         \<and> a' ''schedulable'' = Some (JBool True)
         \<and> a' ''lastAutoRecoveryAttempt'' = Some (JIso (clock e (clockReads w)))
         \<and> a' ''autoRecoveredAt'' = Some (JIso (clock e (clockReads w + 1))))
      \<and> accountId \<notin> set (index w' accountType))
   \<and> (checkAccount e accountType accountId c w = (c', w') \<and> recovered c' = recovered c + 1 \<longrightarrow>
      (\<exists>a'. accounts w' accountType accountId = Some a'
         \<and> a' ''autoDisabledAt'' = None \<and> a' ''autoDisabledReason'' = None
         \<and> a' ''autoDisabledDetails'' = None
         \<and> a' ''autoDisabledAt'' \<noteq> Some (JStr []) \<and> a' ''autoDisabledReason'' \<noteq> Some (JStr [])
         \<and> a' ''autoDisabledDetails'' \<noteq> Some (JStr [])
         \<and> a' ''schedulable'' = Some (JBool True)
         \<and> a' ''lastAutoRecoveryAttempt'' = Some (JIso (clock e (clockReads w + 1)))
         \<and> a' ''autoRecoveredAt'' = Some (JIso (clock e (clockReads w + 2))))
      \<and> accountId \<notin> set (index w' accountType))"
proof (intro conjI impI)
  assume "recoverAccount e accountId accountType w = (Inr u, w')"
  from recoverAccount_success [OF this] obtain a where
    a: "accounts w' accountType accountId =
          Some (applyUpdates (recoverUpdates (clock e (clockReads w)) (clock e (clockReads w + 1))) a)"
    and i: "index w' accountType = removeAll accountId (index w accountType)"
    by blast
  from a show "\<exists>a'. accounts w' accountType accountId = Some a'
         \<and> a' ''autoDisabledAt'' = None \<and> a' ''autoDisabledReason'' = None
         \<and> a' ''autoDisabledDetails'' = None
         \<and> a' ''autoDisabledAt'' \<noteq> Some (JStr []) \<and> a' ''autoDisabledReason'' \<noteq> Some (JStr [])
         \<and> a' ''autoDisabledDetails'' \<noteq> Some (JStr [])
         \<and> a' ''schedulable'' = Some (JBool True)
         \<and> a' ''lastAutoRecoveryAttempt'' = Some (JIso (clock e (clockReads w)))
         \<and> a' ''autoRecoveredAt'' = Some (JIso (clock e (clockReads w + 1)))"
    by (simp add: readmitted_fields)
  from i show "accountId \<notin> set (index w' accountType)" by simp
next
  assume h: "checkAccount e accountType accountId c w = (c', w') \<and> recovered c' = recovered c + 1"
  from checkAccount_recovered [of e accountType accountId c w c' w'] h obtain w3 where
    r: "recoverAccount e accountId accountType w3 = (Inr (), w')" and c: "clockReads w3 = clockReads w + 1"
    by blast
  from recoverAccount_success [OF r] c obtain a where
    a: "accounts w' accountType accountId =
          Some (applyUpdates (recoverUpdates (clock e (clockReads w + 1)) (clock e (clockReads w + 2))) a)"
    and i': "accountId \<notin> set (index w' accountType)"
    by (auto simp: numeral_2_eq_2)
  from a show "\<exists>a'. accounts w' accountType accountId = Some a'
         \<and> a' ''autoDisabledAt'' = None \<and> a' ''autoDisabledReason'' = None
         \<and> a' ''autoDisabledDetails'' = None
         \<and> a' ''autoDisabledAt'' \<noteq> Some (JStr []) \<and> a' ''autoDisabledReason'' \<noteq> Some (JStr [])
         \<and> a' ''autoDisabledDetails'' \<noteq> Some (JStr [])
         \<and> a' ''schedulable'' = Some (JBool True)
         \<and> a' ''lastAutoRecoveryAttempt'' = Some (JIso (clock e (clockReads w + 1)))
         \<and> a' ''autoRecoveredAt'' = Some (JIso (clock e (clockReads w + 2)))"
    by (simp add: readmitted_fields)
  from i' show "accountId \<notin> set (index w' accountType)" .
qed

theorem C2_recovery_clears_fields_witness:
  "recoverAccount quietEnv ''X'' ''claude-console'' quarantinedWorld =
     (Inr (), snd (recoverAccount quietEnv ''X'' ''claude-console'' quarantinedWorld))
   \<and> ''X'' \<notin> set (index (snd (recoverAccount quietEnv ''X'' ''claude-console'' quarantinedWorld)) ''claude-console'')
   \<and> recovered (fst (checkAccount quietEnv ''claude-console'' ''X''
          \<lparr>checked = 1, recovered = 0, failed = 0, cleaned = 0\<rparr> quarantinedWorld)) = 1
   \<and> ''X'' \<notin> set (index (snd (checkAccount quietEnv ''claude-console'' ''X''
          \<lparr>checked = 1, recovered = 0, failed = 0, cleaned = 0\<rparr> quarantinedWorld)) ''claude-console'')"
proof -
  have r: "recoverAccount quietEnv ''X'' ''claude-console'' quarantinedWorld =
     (Inr (), snd (recoverAccount quietEnv ''X'' ''claude-console'' quarantinedWorld))"
    by (simp add: recoverAccount_def readClock_def updateAccountByType_def knownType_def
        updateAccount_def srem_def logCall_def quietEnv_def quarantinedWorld_def)
  have s: "recovered (fst (checkAccount quietEnv ''claude-console'' ''X''
          \<lparr>checked = 1, recovered = 0, failed = 0, cleaned = 0\<rparr> quarantinedWorld)) = 1"
    by (simp add: checkAccount_def validateAccountData_def getAccountByType_def getAccount_def
        updateLastRecoveryAttempt_def testAccountConnection_def serviceTestAccountConnection_def
        recoverAccount_def readClock_def updateAccountByType_def knownType_def
        updateAccount_def srem_def logCall_def quietEnv_def quarantinedWorld_def)
  from r s
    C2_recovery_clears_fields [where e = quietEnv and accountId = "''X''"
      and accountType = "''claude-console''" and w = quarantinedWorld and u = "()"
      and w' = "snd (recoverAccount quietEnv ''X'' ''claude-console'' quarantinedWorld)"
      and c = "\<lparr>checked = 1, recovered = 0, failed = 0, cleaned = 0\<rparr>"
      and c' = "\<lparr>checked = 1, recovered = 0, failed = 0, cleaned = 0\<rparr>"]
    C2_recovery_clears_fields [where e = quietEnv and accountId = "''X''"
      and accountType = "''claude-console''" and w = quarantinedWorld and u = "()"
      and w' = "snd (checkAccount quietEnv ''claude-console'' ''X''
          \<lparr>checked = 1, recovered = 0, failed = 0, cleaned = 0\<rparr> quarantinedWorld)"
      and c = "\<lparr>checked = 1, recovered = 0, failed = 0, cleaned = 0\<rparr>"
      and c' = "fst (checkAccount quietEnv ''claude-console'' ''X''
          \<lparr>checked = 1, recovered = 0, failed = 0, cleaned = 0\<rparr> quarantinedWorld)"]
  show ?thesis by simp
qed

subsection \<open>The manual recovery path\<close>

text \<open>
  Claim C4, what the code does. The claim asks that \<open>recoverAccountFromTest\<close>, for an
  account that is not in the index of its provider type, answers \<open>not_auto_disabled\<close>
  and leaves the record unchanged. The code leaves every record and every index set
  unchanged, but it never gives that answer: for every account, in the index or not,
  the membership test throws, the \<open>catch\<close> returns the result with reason \<open>error\<close>
  (the \<open>TypeError\<close> of the missing client method, or the error of \<open>getClientSafe\<close>),
  and the re-admission is never reached.
\<close>

theorem C4_manual_recovery_throws:
  "fst (recoverAccountFromTest e accountId accountType w) =
     RecoverError (case fault e (length (calls w)) of
                     Some msg \<Rightarrow> msg
                   | None \<Rightarrow> ''client.sIsMember is not a function'')
   \<and> fst (recoverAccountFromTest e accountId accountType w) \<noteq> NotAutoDisabled
   \<and> fst (recoverAccountFromTest e accountId accountType w) \<noteq> TestSuccess
   \<and> accounts (snd (recoverAccountFromTest e accountId accountType w)) = accounts w
   \<and> index (snd (recoverAccountFromTest e accountId accountType w)) = index w
   \<and> clockReads (snd (recoverAccountFromTest e accountId accountType w)) = clockReads w
   \<and> calls (snd (recoverAccountFromTest e accountId accountType w)) =
       calls w @ [(SIsMember accountType accountId, False)]"
  by (simp add: recoverAccountFromTest_def sIsMember_def logCall_def split: option.splits)

theorem C4_manual_recovery_throws_witness:
  "''Z'' \<notin> set (index quarantinedWorld ''claude-console'')
   \<and> recoverAccountFromTest quietEnv ''Z'' ''claude-console'' quarantinedWorld =
       (RecoverError ''client.sIsMember is not a function'',
        quarantinedWorld\<lparr>calls := [(SIsMember ''claude-console'' ''Z'', False)]\<rparr>)
   \<and> ''X'' \<in> set (index quarantinedWorld ''claude-console'')
   \<and> fst (recoverAccountFromTest quietEnv ''X'' ''claude-console'' quarantinedWorld) =
       RecoverError ''client.sIsMember is not a function''
   \<and> index (snd (recoverAccountFromTest quietEnv ''X'' ''claude-console'' quarantinedWorld)) =
       index quarantinedWorld"
proof -
  have f: "fault quietEnv (length (calls quarantinedWorld)) = None"
    by (simp add: quietEnv_def)
  have m: "''Z'' \<notin> set (index quarantinedWorld ''claude-console'')"
    "''X'' \<in> set (index quarantinedWorld ''claude-console'')"
    "calls quarantinedWorld = []"
    by (simp_all add: quarantinedWorld_def)
  have z: "recoverAccountFromTest quietEnv ''Z'' ''claude-console'' quarantinedWorld =
       (RecoverError ''client.sIsMember is not a function'',
        quarantinedWorld\<lparr>calls := [(SIsMember ''claude-console'' ''Z'', False)]\<rparr>)"
    using C4_manual_recovery_throws [of quietEnv "''Z''" "''claude-console''" quarantinedWorld] f m
    by (simp add: recoverAccountFromTest_def sIsMember_def logCall_def)
  from f m z C4_manual_recovery_throws [of quietEnv "''X''" "''claude-console''" quarantinedWorld]
  show ?thesis by simp
qed

subsection \<open>The start/stop lifecycle\<close>



subsection \<open>Counters of a recovery cycle\<close>

lemma checkAccount_one_outcome:
  "fst (checkAccount e accountType accountId c w) = c\<lparr>recovered := recovered c + 1\<rparr>
   \<or> fst (checkAccount e accountType accountId c w) = c\<lparr>failed := failed c + 1\<rparr>
   \<or> fst (checkAccount e accountType accountId c w) = c\<lparr>cleaned := cleaned c + 1\<rparr>"
  by (simp add: checkAccount_def split: prod.splits sum.splits)

lemma checkAccount_counts:
  assumes "checkAccount e accountType accountId c w = (c', w')"
  shows "checked c' = checked c
     \<and> recovered c' + failed c' + cleaned c' = recovered c + failed c + cleaned c + 1"
  using checkAccount_one_outcome [of e accountType accountId c w] assms by auto

lemma checkLoop_counts:
  "checkLoop e accountType ids c w = (c', w') \<Longrightarrow>
   checked c' = checked c
   \<and> recovered c' + failed c' + cleaned c' = recovered c + failed c + cleaned c + length ids"
proof (induction ids arbitrary: c w)
  case Nil
  then show ?case by simp
next
  case (Cons accountId ids)
  obtain c1 w1 where s: "checkAccount e accountType accountId c w = (c1, w1)"
    by (cases "checkAccount e accountType accountId c w")
  with Cons.prems have "checkLoop e accountType ids c1 w1 = (c', w')" by simp
  from Cons.IH [OF this] checkAccount_counts [OF s] show ?case by simp
qed

lemma checkAccountType_counts:
  assumes "checkAccountType e accountType w = (Inr r, w')"
  shows "checked r = recovered r + failed r + cleaned r"
proof -
  obtain res w1 where m: "smembers e accountType w = (res, w1)"
    by (cases "smembers e accountType w")
  show ?thesis
  proof (cases res)
    case (Inl err)
    with assms m show ?thesis by (simp add: checkAccountType_def)
  next
    case (Inr ids)
    show ?thesis
    proof (cases "ids = []")
      case True
      with assms m Inr show ?thesis by (auto simp: checkAccountType_def)
    next
      case False
      obtain c w2 where l: "checkLoop e accountType ids
          \<lparr>checked = length ids, recovered = 0, failed = 0, cleaned = 0\<rparr> w1 = (c, w2)"
        by (cases "checkLoop e accountType ids
          \<lparr>checked = length ids, recovered = 0, failed = 0, cleaned = 0\<rparr> w1")
      with assms m Inr False have "r = c" by (simp add: checkAccountType_def)
      with checkLoop_counts [OF l] show ?thesis by simp
    qed
  qed
qed

lemma typesLoop_sums:
  "typesLoop e ts tot w = (tot', w') \<Longrightarrow>
   checked tot' = checked tot + sum_list (map checked (typeResults e ts w))
   \<and> recovered tot' = recovered tot + sum_list (map recovered (typeResults e ts w))
   \<and> failed tot' = failed tot + sum_list (map failed (typeResults e ts w))
   \<and> cleaned tot' = cleaned tot + sum_list (map cleaned (typeResults e ts w))"
proof (induction ts arbitrary: tot w)
  case Nil
  then show ?case by simp
next
  case (Cons accountType ts)
  obtain res w1 where s: "checkAccountType e accountType w = (res, w1)"
    by (cases "checkAccountType e accountType w")
  show ?case
  proof (cases res)
    case (Inl err)
    with Cons.prems s have "typesLoop e ts tot w1 = (tot', w')" by simp
    from Cons.IH [OF this] s Inl show ?thesis by simp
  next
    case (Inr r)
    with Cons.prems s have "typesLoop e ts
       \<lparr>checked = checked tot + checked r, recovered = recovered tot + recovered r,
        failed = failed tot + failed r, cleaned = cleaned tot + cleaned r\<rparr> w1 = (tot', w')"
      by simp
    from Cons.IH [OF this] s Inr show ?thesis by simp
  qed
qed

lemma typeResults_balanced:
  "\<forall>r \<in> set (typeResults e ts w). checked r = recovered r + failed r + cleaned r"
proof (induction ts arbitrary: w)
  case Nil
  then show ?case by simp
next
  case (Cons accountType ts)
  obtain res w1 where s: "checkAccountType e accountType w = (res, w1)"
    by (cases "checkAccountType e accountType w")
  show ?case
  proof (cases res)
    case (Inl err)
    with s Cons.IH [of w1] show ?thesis by simp
  next
    case (Inr r)
    with s Cons.IH [of w1] checkAccountType_counts [of e accountType w r w1] show ?thesis by simp
  qed
qed

lemma balanced_sum:
  "\<forall>r \<in> set rs. checked r = recovered r + failed r + cleaned r \<Longrightarrow>
   sum_list (map checked rs) =
     sum_list (map recovered rs) + sum_list (map failed rs) + sum_list (map cleaned rs)"
  by (induction rs) auto

text \<open>
  Claim C10. Every iteration of the loop of \<open>checkAccountType\<close> increments exactly one
  of \<open>recovered\<close>, \<open>failed\<close> and \<open>cleaned\<close> by one, so the counters a call returns
  satisfy \<open>checked = recovered + failed + cleaned\<close>; the totals returned by
  \<open>runRecoveryCheck\<close> are the sums of the counters its calls of \<open>checkAccountType\<close>
  returned, taken over all provider types, and so the totals balance in the same way.
\<close>

theorem C10_counters_balance:
  "(fst (checkAccount e accountType accountId c w) = c\<lparr>recovered := recovered c + 1\<rparr>
      \<or> fst (checkAccount e accountType accountId c w) = c\<lparr>failed := failed c + 1\<rparr>
      \<or> fst (checkAccount e accountType accountId c w) = c\<lparr>cleaned := cleaned c + 1\<rparr>)
   \<and> (checkAccountType e accountType w = (Inr r, w') \<longrightarrow>
        checked r = recovered r + failed r + cleaned r)
   \<and> totalChecked (fst (runRecoveryCheck e w)) =
        sum_list (map checked (typeResults e accountTypes (snd (readClock e w))))
   \<and> totalRecovered (fst (runRecoveryCheck e w)) =
        sum_list (map recovered (typeResults e accountTypes (snd (readClock e w))))
   \<and> totalFailed (fst (runRecoveryCheck e w)) =
        sum_list (map failed (typeResults e accountTypes (snd (readClock e w))))
   \<and> totalCleaned (fst (runRecoveryCheck e w)) =
        sum_list (map cleaned (typeResults e accountTypes (snd (readClock e w))))
   \<and> totalChecked (fst (runRecoveryCheck e w)) =
        totalRecovered (fst (runRecoveryCheck e w)) + totalFailed (fst (runRecoveryCheck e w))
        + totalCleaned (fst (runRecoveryCheck e w))"
proof -
  obtain startTime w1 where c1: "readClock e w = (startTime, w1)"
    by (cases "readClock e w")
  obtain tot w2 where l: "typesLoop e accountTypes
      \<lparr>checked = 0, recovered = 0, failed = 0, cleaned = 0\<rparr> w1 = (tot, w2)"
    by (cases "typesLoop e accountTypes \<lparr>checked = 0, recovered = 0, failed = 0, cleaned = 0\<rparr> w1")
  obtain endTime w3 where c2: "readClock e w2 = (endTime, w3)"
    by (cases "readClock e w2")
  have run: "fst (runRecoveryCheck e w) =
      \<lparr>totalChecked = checked tot, totalRecovered = recovered tot, totalFailed = failed tot,
       totalCleaned = cleaned tot, duration = int endTime - int startTime\<rparr>"
    by (simp add: runRecoveryCheck_def c1 l c2)
  note sums = typesLoop_sums [OF l]
  note bal = balanced_sum [OF typeResults_balanced [of e accountTypes w1]]
  show ?thesis
    using checkAccount_one_outcome [of e accountType accountId c w]
      checkAccountType_counts [of e accountType w r w'] sums bal
    by (simp add: run c1)
qed


lemmas cycle_defs =
  runRecoveryCheck_def accountTypes_def checkAccountType_def smembers_def checkAccount_def
  validateAccountData_def getAccountByType_def getAccount_def cleanupInconsistentAccount_def
  updateLastRecoveryAttempt_def testAccountConnection_def serviceTestAccountConnection_def
  recoverAccount_def recoverUpdates_def readClock_def updateAccountByType_def knownType_def
  updateAccount_def srem_def logCall_def

theorem C10_counters_balance_witness:
  "checkAccountType probeFailsEnv ''claude-console'' driftedWorld =
     (Inr \<lparr>checked = 3, recovered = 1, failed = 0, cleaned = 2\<rparr>,
      snd (checkAccountType probeFailsEnv ''claude-console'' driftedWorld))
   \<and> (3::nat) = 1 + 0 + 2
   \<and> fst (runRecoveryCheck probeFailsEnv driftedWorld) =
       \<lparr>totalChecked = 4, totalRecovered = 1, totalFailed = 1, totalCleaned = 2, duration = 5\<rparr>"
proof -
  have t: "checkAccountType probeFailsEnv ''claude-console'' driftedWorld =
     (Inr \<lparr>checked = 3, recovered = 1, failed = 0, cleaned = 2\<rparr>,
      snd (checkAccountType probeFailsEnv ''claude-console'' driftedWorld))"
    by (simp add: cycle_defs probeFailsEnv_def driftedWorld_def)
  have r: "fst (runRecoveryCheck probeFailsEnv driftedWorld) =
       \<lparr>totalChecked = 4, totalRecovered = 1, totalFailed = 1, totalCleaned = 2, duration = 5\<rparr>"
    by (simp add: cycle_defs probeFailsEnv_def driftedWorld_def)
  from t r
    C10_counters_balance [where e = probeFailsEnv and accountType = "''claude-console''"
      and w = driftedWorld and r = "\<lparr>checked = 3, recovered = 1, failed = 0, cleaned = 2\<rparr>"
      and w' = "snd (checkAccountType probeFailsEnv ''claude-console'' driftedWorld)"]
  show ?thesis by simp
qed

subsection \<open>Footprint of the per-account steps\<close>

lemma enumerated_append: "enumerated (xs @ ys) = enumerated xs @ enumerated ys"
  by (induction xs rule: enumerated.induct) simp_all


lemma recordWrites_append:
  "recordWrites t accountId (xs @ ys) = recordWrites t accountId xs @ recordWrites t accountId ys"
  by (induction t accountId xs rule: recordWrites.induct) simp_all

lemma touchesOnly_refl: "touchesOnly t accountId w w"
  by (simp add: touchesOnly_def)

lemma touchesOnly_trans:
  assumes "touchesOnly t accountId w w1" and "touchesOnly t accountId w1 w2"
  shows "touchesOnly t accountId w w2"
proof -
  from assms(1) obtain tr1 where a: "calls w1 = calls w @ tr1" "enumerated tr1 = []"
    "\<forall>t' i. t' \<noteq> t \<or> i \<noteq> accountId \<longrightarrow> recordWrites t' i tr1 = []"
    unfolding touchesOnly_def by blast
  from assms(2) obtain tr2 where b: "calls w2 = calls w1 @ tr2" "enumerated tr2 = []"
    "\<forall>t' i. t' \<noteq> t \<or> i \<noteq> accountId \<longrightarrow> recordWrites t' i tr2 = []"
    unfolding touchesOnly_def by blast
  have tr: "\<exists>tr. calls w2 = calls w @ tr \<and> enumerated tr = []
      \<and> (\<forall>t' i. t' \<noteq> t \<or> i \<noteq> accountId \<longrightarrow> recordWrites t' i tr = [])"
    using a b by (intro exI [of _ "tr1 @ tr2"]) (simp add: enumerated_append recordWrites_append)
  from assms have rest: "(\<forall>t' i. t' \<noteq> t \<or> i \<noteq> accountId \<longrightarrow> accounts w2 t' i = accounts w t' i)
     \<and> (\<forall>t' i. t' \<noteq> t \<or> i \<noteq> accountId \<longrightarrow> (i \<in> set (index w2 t')) = (i \<in> set (index w t')))
     \<and> (accountId \<in> set (index w2 t) \<longrightarrow> accountId \<in> set (index w t))"
    unfolding touchesOnly_def by simp
  from tr rest show ?thesis unfolding touchesOnly_def by simp
qed

lemma touchesOnly_logCall:
  assumes "enumerated [(c, ok)] = []"
    and "\<forall>t' i. t' \<noteq> t \<or> i \<noteq> accountId \<longrightarrow> recordWrites t' i [(c, ok)] = []"
  shows "touchesOnly t accountId w (logCall c ok w)"
  using assms unfolding touchesOnly_def logCall_def by simp

lemma touchesOnly_validateAccountData:
  "touchesOnly accountType accountId w (snd (validateAccountData e accountId accountType w))"
  by (auto simp: validateAccountData_def getAccountByType_def getAccount_def touchesOnly_refl
      intro!: touchesOnly_logCall split: option.splits)

lemma touchesOnly_testAccountConnection:
  "touchesOnly accountType accountId w (snd (testAccountConnection e accountId accountType w))"
  by (auto simp: testAccountConnection_def serviceTestAccountConnection_def touchesOnly_refl
      intro!: touchesOnly_logCall split: option.splits)

lemma touchesOnly_srem:
  "touchesOnly accountType accountId w (snd (srem e accountType accountId w))"
  by (auto simp: srem_def touchesOnly_def logCall_def split: option.splits)

lemma touchesOnly_cleanupInconsistentAccount:
  "touchesOnly accountType accountId w (cleanupInconsistentAccount e accountId accountType w)"
  using touchesOnly_srem [of accountType accountId w e]
  by (auto simp: cleanupInconsistentAccount_def split: prod.splits sum.splits)

lemma touchesOnly_readClock: "touchesOnly t accountId w (snd (readClock e w))"
  by (simp add: readClock_def touchesOnly_def)

lemma touchesOnly_updateAccountByType:
  "touchesOnly accountType accountId w (snd (updateAccountByType e accountId accountType updates w))"
  by (auto simp: updateAccountByType_def updateAccount_def touchesOnly_def logCall_def
      split: option.splits)

lemma touchesOnly_updateLastRecoveryAttempt:
  "touchesOnly accountType accountId w (snd (updateLastRecoveryAttempt e accountId accountType w))"
proof -
  obtain t w1 where c: "readClock e w = (t, w1)" by (cases "readClock e w")
  have "touchesOnly accountType accountId w w1"
    using touchesOnly_readClock [of accountType accountId w e] c by simp
  moreover have "touchesOnly accountType accountId w1
      (snd (updateAccountByType e accountId accountType [(''lastAutoRecoveryAttempt'', JIso t)] w1))"
    by (rule touchesOnly_updateAccountByType)
  ultimately show ?thesis
    by (simp add: updateLastRecoveryAttempt_def c touchesOnly_trans)
qed

lemma touchesOnly_recoverAccount:
  "touchesOnly accountType accountId w (snd (recoverAccount e accountId accountType w))"
proof -
  obtain t1 w1 where c1: "readClock e w = (t1, w1)" by (cases "readClock e w")
  obtain t2 w2 where c2: "readClock e w1 = (t2, w2)" by (cases "readClock e w1")
  obtain r w3 where u: "updateAccountByType e accountId accountType (recoverUpdates t1 t2) w2 = (r, w3)"
    by (cases "updateAccountByType e accountId accountType (recoverUpdates t1 t2) w2")
  have s1: "touchesOnly accountType accountId w w1"
    using touchesOnly_readClock [of accountType accountId w e] c1 by simp
  have s2: "touchesOnly accountType accountId w1 w2"
    using touchesOnly_readClock [of accountType accountId w1 e] c2 by simp
  have s3: "touchesOnly accountType accountId w2 w3"
    using touchesOnly_updateAccountByType [of accountType accountId w2 e "recoverUpdates t1 t2"] u
    by simp
  have s4: "touchesOnly accountType accountId w3 (snd (srem e accountType accountId w3))"
    by (rule touchesOnly_srem)
  note s03 = touchesOnly_trans [OF touchesOnly_trans [OF s1 s2] s3]
  show ?thesis
  proof (cases r)
    case (Inl err)
    with s03 show ?thesis by (simp add: recoverAccount_def c1 c2 u)
  next
    case (Inr v)
    with touchesOnly_trans [OF s03 s4] show ?thesis by (simp add: recoverAccount_def c1 c2 u)
  qed
qed

lemma touchesOnly_checkAccount:
  "touchesOnly accountType accountId w (snd (checkAccount e accountType accountId c w))"
proof -
  obtain isValid w1 where v: "validateAccountData e accountId accountType w = (isValid, w1)"
    by (cases "validateAccountData e accountId accountType w")
  obtain r2 w2 where u: "updateLastRecoveryAttempt e accountId accountType w1 = (r2, w2)"
    by (cases "updateLastRecoveryAttempt e accountId accountType w1")
  obtain tr w3 where t: "testAccountConnection e accountId accountType w2 = (tr, w3)"
    by (cases "testAccountConnection e accountId accountType w2")
  obtain r4 w4 where r: "recoverAccount e accountId accountType w3 = (r4, w4)"
    by (cases "recoverAccount e accountId accountType w3")
  have s1: "touchesOnly accountType accountId w w1"
    using touchesOnly_validateAccountData [of accountType accountId w e] v by simp
  have sc: "touchesOnly accountType accountId w1 (cleanupInconsistentAccount e accountId accountType w1)"
    by (rule touchesOnly_cleanupInconsistentAccount)
  have s2: "touchesOnly accountType accountId w1 w2"
    using touchesOnly_updateLastRecoveryAttempt [of accountType accountId w1 e] u by simp
  have s3: "touchesOnly accountType accountId w2 w3"
    using touchesOnly_testAccountConnection [of accountType accountId w2 e] t by simp
  have s4: "touchesOnly accountType accountId w3 w4"
    using touchesOnly_recoverAccount [of accountType accountId w3 e] r by simp
  note t2 = touchesOnly_trans [OF s1 s2]
  note t3 = touchesOnly_trans [OF t2 s3]
  note t4 = touchesOnly_trans [OF t3 s4]
  note tc = touchesOnly_trans [OF s1 sc]
  have "snd (checkAccount e accountType accountId c w) = cleanupInconsistentAccount e accountId accountType w1
      \<or> snd (checkAccount e accountType accountId c w) = w2
      \<or> snd (checkAccount e accountType accountId c w) = w3
      \<or> snd (checkAccount e accountType accountId c w) = w4"
    by (simp add: checkAccount_def v u t r split: sum.splits)
  with tc t2 t3 t4 show ?thesis by auto
qed

subsection \<open>The consistency sweep inside a recovery cycle\<close>

lemma leavesAlone_refl: "leavesAlone t accountId w w"
  by (simp add: leavesAlone_def)

lemma leavesAlone_trans:
  "leavesAlone t accountId w w1 \<Longrightarrow> leavesAlone t accountId w1 w2 \<Longrightarrow> leavesAlone t accountId w w2"
  by (simp add: leavesAlone_def)

lemma touchesOnly_leavesAlone:
  assumes "touchesOnly t' accountId' w w'" and "t \<noteq> t' \<or> accountId \<noteq> accountId'"
  shows "leavesAlone t accountId w w'"
proof -
  from assms(1) obtain tr where tr: "calls w' = calls w @ tr"
    "\<forall>t i. t \<noteq> t' \<or> i \<noteq> accountId' \<longrightarrow> recordWrites t i tr = []"
    unfolding touchesOnly_def by blast
  from tr assms(2) have "recordWrites t accountId (calls w') = recordWrites t accountId (calls w)"
    by (simp add: recordWrites_append)
  moreover from assms have "accounts w' t accountId = accounts w t accountId"
    unfolding touchesOnly_def by blast
  moreover from assms have "(accountId \<in> set (index w' t)) = (accountId \<in> set (index w t))"
    unfolding touchesOnly_def by blast
  ultimately show ?thesis by (simp add: leavesAlone_def)
qed

lemma leavesAlone_readClock: "leavesAlone t accountId w (snd (readClock e w))"
  by (simp add: readClock_def leavesAlone_def)

lemma validateAccountData_lacksFields:
  "lacksFields (accounts w accountType accountId) \<Longrightarrow>
   fst (validateAccountData e accountId accountType w) = False"
  by (auto simp: lacksFields_def validateAccountData_def getAccountByType_def getAccount_def
      split: option.splits)

lemma validateAccountData_no_writes:
  "recordWrites t i (calls (snd (validateAccountData e accountId accountType w))) =
     recordWrites t i (calls w)"
  by (simp add: validateAccountData_def getAccountByType_def getAccount_def logCall_def
      recordWrites_append split: option.splits)

lemma cleanupInconsistentAccount_effect:
  "accounts (cleanupInconsistentAccount e accountId accountType w) = accounts w
   \<and> recordWrites t i (calls (cleanupInconsistentAccount e accountId accountType w)) =
       recordWrites t i (calls w)
   \<and> (fault e (length (calls w)) = None \<longrightarrow>
        accountId \<notin> set (index (cleanupInconsistentAccount e accountId accountType w) accountType))"
  by (simp add: cleanupInconsistentAccount_def srem_def logCall_def recordWrites_append
      split: option.splits)

lemma checkAccount_lacksFields:
  assumes "lacksFields (accounts w accountType accountId)"
  shows "fst (checkAccount e accountType accountId c w) = c\<lparr>cleaned := cleaned c + 1\<rparr>
     \<and> accounts (snd (checkAccount e accountType accountId c w)) = accounts w
     \<and> recordWrites t i (calls (snd (checkAccount e accountType accountId c w))) =
         recordWrites t i (calls w)
     \<and> ((\<forall>n. fault e n = None) \<longrightarrow>
          accountId \<notin> set (index (snd (checkAccount e accountType accountId c w)) accountType))"
proof -
  obtain isValid w1 where v: "validateAccountData e accountId accountType w = (isValid, w1)"
    by (cases "validateAccountData e accountId accountType w")
  with validateAccountData_lacksFields [OF assms, of e] have nv: "\<not> isValid" by simp
  have a1: "accounts w1 = accounts w"
    using validateAccountData_frame [of e accountId accountType w] v by simp
  have r1: "recordWrites t i (calls w1) = recordWrites t i (calls w)"
    using validateAccountData_no_writes [of t i e accountId accountType w] v by simp
  have res: "checkAccount e accountType accountId c w =
      (c\<lparr>cleaned := cleaned c + 1\<rparr>, cleanupInconsistentAccount e accountId accountType w1)"
    using nv by (simp add: checkAccount_def v)
  from cleanupInconsistentAccount_effect [of e accountId accountType w1 t i] a1 r1 res
  show ?thesis by simp
qed

lemma checkAccount_cleaned_mono:
  "cleaned c \<le> cleaned (fst (checkAccount e accountType accountId c w))"
  using checkAccount_one_outcome [of e accountType accountId c w] by auto

lemma checkLoop_other_type:
  "t \<noteq> accountType \<Longrightarrow> leavesAlone t accountId w (snd (checkLoop e accountType ids c w))"
proof (induction ids arbitrary: c w)
  case Nil
  then show ?case by (simp add: leavesAlone_refl)
next
  case (Cons x ids)
  obtain c1 w1 where s: "checkAccount e accountType x c w = (c1, w1)"
    by (cases "checkAccount e accountType x c w")
  have "touchesOnly accountType x w w1"
    using touchesOnly_checkAccount [of accountType x w e c] s by simp
  with Cons.prems have "leavesAlone t accountId w w1"
    by (auto intro: touchesOnly_leavesAlone)
  from leavesAlone_trans [OF this Cons.IH [OF Cons.prems]] s show ?case by simp
qed

lemma leavesAlone_smembers: "leavesAlone t accountId w (snd (smembers e accountType w))"
  by (simp add: smembers_def logCall_def leavesAlone_def recordWrites_append split: option.splits)

lemma checkAccountType_other_type:
  assumes "t \<noteq> accountType"
  shows "leavesAlone t accountId w (snd (checkAccountType e accountType w))"
proof -
  obtain res w1 where m: "smembers e accountType w = (res, w1)"
    by (cases "smembers e accountType w")
  have l1: "leavesAlone t accountId w w1"
    using leavesAlone_smembers [of t accountId w e accountType] m by simp
  show ?thesis
  proof (cases res)
    case (Inl err)
    with m l1 show ?thesis by (simp add: checkAccountType_def)
  next
    case (Inr ids)
    obtain c w2 where l: "checkLoop e accountType ids
        \<lparr>checked = length ids, recovered = 0, failed = 0, cleaned = 0\<rparr> w1 = (c, w2)"
      by (cases "checkLoop e accountType ids
        \<lparr>checked = length ids, recovered = 0, failed = 0, cleaned = 0\<rparr> w1")
    have "leavesAlone t accountId w1 w2"
      using checkLoop_other_type [OF assms, of accountId w1 e ids
          "\<lparr>checked = length ids, recovered = 0, failed = 0, cleaned = 0\<rparr>"] l
      by simp
    from leavesAlone_trans [OF l1 this] m Inr l1 l show ?thesis
      by (simp add: checkAccountType_def)
  qed
qed

lemma checkLoop_keeps:
  "lacksFields (accounts w accountType accountId) \<Longrightarrow>
   checkLoop e accountType ids c w = (c', w') \<Longrightarrow>
   accounts w' accountType accountId = accounts w accountType accountId
   \<and> recordWrites accountType accountId (calls w') = recordWrites accountType accountId (calls w)"
proof (induction ids arbitrary: c w)
  case Nil
  then show ?case by simp
next
  case (Cons x ids)
  obtain c1 w1 where s: "checkAccount e accountType x c w = (c1, w1)"
    by (cases "checkAccount e accountType x c w")
  with Cons.prems have rest: "checkLoop e accountType ids c1 w1 = (c', w')" by simp
  have k1: "accounts w1 accountType accountId = accounts w accountType accountId
      \<and> recordWrites accountType accountId (calls w1) = recordWrites accountType accountId (calls w)"
  proof (cases "x = accountId")
    case True
    from checkAccount_lacksFields [OF Cons.prems(1), of e c accountType accountId] s True
    show ?thesis by simp
  next
    case False
    have "touchesOnly accountType x w w1"
      using touchesOnly_checkAccount [of accountType x w e c] s by simp
    with False have "leavesAlone accountType accountId w w1"
      by (auto intro: touchesOnly_leavesAlone)
    then show ?thesis by (simp add: leavesAlone_def)
  qed
  with Cons.prems(1) have l1: "lacksFields (accounts w1 accountType accountId)" by simp
  from Cons.IH [OF l1 rest] k1 show ?case by simp
qed

lemma checkAccountType_keeps:
  assumes "lacksFields (accounts w accountType accountId)"
  shows "accounts (snd (checkAccountType e t w)) accountType accountId = accounts w accountType accountId
     \<and> recordWrites accountType accountId (calls (snd (checkAccountType e t w))) =
         recordWrites accountType accountId (calls w)"
proof (cases "t = accountType")
  case False
  then have "leavesAlone accountType accountId w (snd (checkAccountType e t w))"
    by (intro checkAccountType_other_type) simp
  then show ?thesis by (simp add: leavesAlone_def)
next
  case True
  obtain res w1 where m: "smembers e accountType w = (res, w1)"
    by (cases "smembers e accountType w")
  have la: "leavesAlone accountType accountId w w1"
    using leavesAlone_smembers [of accountType accountId w e accountType] m by simp
  with assms have l1: "lacksFields (accounts w1 accountType accountId)"
    by (simp add: leavesAlone_def)
  show ?thesis
  proof (cases res)
    case (Inl err)
    with m la True show ?thesis by (simp add: checkAccountType_def leavesAlone_def)
  next
    case (Inr ids)
    obtain c w2 where l: "checkLoop e accountType ids
        \<lparr>checked = length ids, recovered = 0, failed = 0, cleaned = 0\<rparr> w1 = (c, w2)"
      by (cases "checkLoop e accountType ids
        \<lparr>checked = length ids, recovered = 0, failed = 0, cleaned = 0\<rparr> w1")
    from checkLoop_keeps [OF l1 l] la m Inr l True show ?thesis
      by (simp add: checkAccountType_def leavesAlone_def)
  qed
qed

lemma typesLoop_keeps:
  "lacksFields (accounts w accountType accountId) \<Longrightarrow>
   accounts (snd (typesLoop e ts tot w)) accountType accountId = accounts w accountType accountId
   \<and> recordWrites accountType accountId (calls (snd (typesLoop e ts tot w))) =
       recordWrites accountType accountId (calls w)"
proof (induction ts arbitrary: tot w)
  case Nil
  then show ?case by simp
next
  case (Cons x ts)
  obtain res w1 where s: "checkAccountType e x w = (res, w1)"
    by (cases "checkAccountType e x w")
  have k1: "accounts w1 accountType accountId = accounts w accountType accountId
      \<and> recordWrites accountType accountId (calls w1) = recordWrites accountType accountId (calls w)"
    using checkAccountType_keeps [OF Cons.prems, of e x] s by simp
  with Cons.prems have l1: "lacksFields (accounts w1 accountType accountId)" by simp
  show ?case
  proof (cases res)
    case (Inl err)
    with s k1 Cons.IH [OF l1, of tot] show ?thesis by simp
  next
    case (Inr r)
    with s k1 Cons.IH [OF l1, of "\<lparr>checked = checked tot + checked r,
        recovered = recovered tot + recovered r, failed = failed tot + failed r,
        cleaned = cleaned tot + cleaned r\<rparr>"]
    show ?thesis by simp
  qed
qed

lemma enumerated_mem: "(SMembers t, ok) \<in> set tr \<Longrightarrow> t \<in> set (enumerated tr)"
  by (induction tr rule: enumerated.induct) auto

lemma touchesOnly_trace:
  assumes "touchesOnly t accountId w w'"
  shows "\<exists>tr. calls w' = calls w @ tr \<and> enumerated tr = []"
  using assms unfolding touchesOnly_def by blast

lemma cleanupInconsistentAccount_trace:
  "\<exists>ok. calls (cleanupInconsistentAccount e accountId accountType w) =
           calls w @ [(SRem accountType accountId, ok)]
     \<and> (accountId \<in> set (index (cleanupInconsistentAccount e accountId accountType w) accountType)
          \<longrightarrow> \<not> ok \<and> accountId \<in> set (index w accountType))"
  by (cases "fault e (length (calls w))")
    (auto simp: cleanupInconsistentAccount_def srem_def logCall_def)

lemma checkAccount_lacksFields_trace:
  assumes "lacksFields (accounts w accountType accountId)"
  shows "\<exists>tr. calls (snd (checkAccount e accountType accountId c w)) = calls w @ tr
     \<and> enumerated tr = []
     \<and> (accountId \<in> set (index (snd (checkAccount e accountType accountId c w)) accountType)
          \<longrightarrow> (SRem accountType accountId, False) \<in> set tr
              \<and> accountId \<in> set (index w accountType))"
proof -
  obtain isValid w1 where v: "validateAccountData e accountId accountType w = (isValid, w1)"
    by (cases "validateAccountData e accountId accountType w")
  with validateAccountData_lacksFields [OF assms, of e] have nv: "\<not> isValid" by simp
  have i1: "index w1 = index w"
    using validateAccountData_frame [of e accountId accountType w] v by simp
  from touchesOnly_trace [OF touchesOnly_validateAccountData [of accountType accountId w e]] v
  obtain tr0 where t0: "calls w1 = calls w @ tr0" "enumerated tr0 = []"
    by auto
  have res: "snd (checkAccount e accountType accountId c w) =
      cleanupInconsistentAccount e accountId accountType w1"
    using nv by (simp add: checkAccount_def v)
  from cleanupInconsistentAccount_trace [of e accountId accountType w1]
  obtain ok where k: "calls (cleanupInconsistentAccount e accountId accountType w1) =
        calls w1 @ [(SRem accountType accountId, ok)]"
    and m: "accountId \<in> set (index (cleanupInconsistentAccount e accountId accountType w1) accountType)
        \<longrightarrow> \<not> ok \<and> accountId \<in> set (index w1 accountType)"
    by blast
  show ?thesis
    using res t0 k m i1
    by (intro exI [of _ "tr0 @ [(SRem accountType accountId, ok)]"])
      (auto simp: enumerated_append)
qed

lemma checkLoop_trace:
  "\<exists>tr. calls (snd (checkLoop e accountType ids c w)) = calls w @ tr \<and> enumerated tr = []"
proof (induction ids arbitrary: c w)
  case Nil
  then show ?case by simp
next
  case (Cons x ids)
  obtain c1 w1 where s: "checkAccount e accountType x c w = (c1, w1)"
    by (cases "checkAccount e accountType x c w")
  from touchesOnly_trace [OF touchesOnly_checkAccount [of accountType x w e c]] s
  obtain tr1 where t1: "calls w1 = calls w @ tr1" "enumerated tr1 = []"
    by auto
  from Cons.IH [of c1 w1]
  obtain tr2 where t2: "calls (snd (checkLoop e accountType ids c1 w1)) = calls w1 @ tr2"
    "enumerated tr2 = []"
    by blast
  show ?case
    using s t1 t2 by (intro exI [of _ "tr1 @ tr2"]) (simp add: enumerated_append)
qed

lemma checkLoop_sweeps:
  "lacksFields (accounts w accountType accountId) \<Longrightarrow>
   checkLoop e accountType ids c w = (c', w') \<Longrightarrow>
   \<exists>tr. calls w' = calls w @ tr \<and> enumerated tr = []
     \<and> (accountId \<in> set (index w' accountType) \<longrightarrow> accountId \<in> set (index w accountType))
     \<and> (accountId \<in> set ids \<and> accountId \<in> set (index w' accountType)
          \<longrightarrow> (SRem accountType accountId, False) \<in> set tr)
     \<and> cleaned c + (if accountId \<in> set ids then 1 else 0) \<le> cleaned c'"
proof (induction ids arbitrary: c w)
  case Nil
  then show ?case by simp
next
  case (Cons x ids)
  obtain c1 w1 where s: "checkAccount e accountType x c w = (c1, w1)"
    by (cases "checkAccount e accountType x c w")
  with Cons.prems have rest: "checkLoop e accountType ids c1 w1 = (c', w')" by simp
  show ?case
  proof (cases "x = accountId")
    case True
    from checkAccount_lacksFields [OF Cons.prems(1), of e c accountType accountId] s True
    have c1: "c1 = c\<lparr>cleaned := cleaned c + 1\<rparr>" and a1: "accounts w1 = accounts w"
      by simp_all
    from checkAccount_lacksFields_trace [OF Cons.prems(1), of e c] s True
    obtain tr1 where t1: "calls w1 = calls w @ tr1" "enumerated tr1 = []"
      "accountId \<in> set (index w1 accountType)
         \<longrightarrow> (SRem accountType accountId, False) \<in> set tr1 \<and> accountId \<in> set (index w accountType)"
      by auto
    from Cons.prems(1) a1 have l1: "lacksFields (accounts w1 accountType accountId)" by simp
    from Cons.IH [OF l1 rest]
    obtain tr2 where t2: "calls w' = calls w1 @ tr2" "enumerated tr2 = []"
      "accountId \<in> set (index w' accountType) \<longrightarrow> accountId \<in> set (index w1 accountType)"
      "accountId \<in> set ids \<and> accountId \<in> set (index w' accountType)
         \<longrightarrow> (SRem accountType accountId, False) \<in> set tr2"
      "cleaned c1 + (if accountId \<in> set ids then 1 else 0) \<le> cleaned c'"
      by blast
    show ?thesis
      using t1 t2 c1 True
      by (intro exI [of _ "tr1 @ tr2"]) (auto simp: enumerated_append split: if_splits)
  next
    case False
    have to: "touchesOnly accountType x w w1"
      using touchesOnly_checkAccount [of accountType x w e c] s by simp
    from touchesOnly_trace [OF to]
    obtain tr1 where t1: "calls w1 = calls w @ tr1" "enumerated tr1 = []"
      by blast
    from to False have la: "leavesAlone accountType accountId w w1"
      by (auto intro: touchesOnly_leavesAlone)
    then have l1: "lacksFields (accounts w1 accountType accountId)"
      using Cons.prems(1) by (simp add: leavesAlone_def)
    have m: "cleaned c \<le> cleaned c1"
      using checkAccount_cleaned_mono [of c e accountType x w] s by simp
    from Cons.IH [OF l1 rest]
    obtain tr2 where t2: "calls w' = calls w1 @ tr2" "enumerated tr2 = []"
      "accountId \<in> set (index w' accountType) \<longrightarrow> accountId \<in> set (index w1 accountType)"
      "accountId \<in> set ids \<and> accountId \<in> set (index w' accountType)
         \<longrightarrow> (SRem accountType accountId, False) \<in> set tr2"
      "cleaned c1 + (if accountId \<in> set ids then 1 else 0) \<le> cleaned c'"
      by blast
    show ?thesis
      using t1 t2 la m False
      by (intro exI [of _ "tr1 @ tr2"])
        (auto simp: enumerated_append leavesAlone_def split: if_splits)
  qed
qed

lemma checkAccountType_sweeps:
  assumes lf: "lacksFields (accounts w accountType accountId)"
    and r: "checkAccountType e x w = (res, w1)"
  shows "\<exists>tr. calls w1 = calls w @ tr
     \<and> (accountId \<in> set (index w1 accountType) \<longrightarrow> accountId \<in> set (index w accountType))
     \<and> ((SMembers accountType, True) \<notin> set tr \<longrightarrow>
          (accountId \<in> set (index w1 accountType)) = (accountId \<in> set (index w accountType)))
     \<and> ((SMembers accountType, True) \<in> set tr \<and> accountId \<in> set (index w1 accountType)
          \<longrightarrow> (SRem accountType accountId, False) \<in> set tr)
     \<and> ((SMembers accountType, True) \<in> set tr \<and> accountId \<in> set (index w accountType)
          \<longrightarrow> (\<exists>cs. res = Inr cs \<and> 1 \<le> cleaned cs))"
proof (cases "fault e (length (calls w))")
  case (Some msg)
  then have "checkAccountType e x w = (Inl msg, logCall (SMembers x) False w)"
    by (simp add: checkAccountType_def smembers_def)
  with r show ?thesis
    by (intro exI [of _ "[(SMembers x, False)]"]) (auto simp: logCall_def)
next
  case None
  let ?w0 = "logCall (SMembers x) True w"
  let ?ids = "index w x"
  have m: "smembers e x w = (Inr ?ids, ?w0)"
    using None by (simp add: smembers_def)
  have w0: "calls ?w0 = calls w @ [(SMembers x, True)]" "index ?w0 = index w"
    "accounts ?w0 = accounts w"
    by (simp_all add: logCall_def)
  show ?thesis
  proof (cases "?ids = []")
    case True
    then have "checkAccountType e x w =
        (Inr \<lparr>checked = 0, recovered = 0, failed = 0, cleaned = 0\<rparr>, ?w0)"
      by (simp add: checkAccountType_def m)
    with r True w0 show ?thesis
      by (intro exI [of _ "[(SMembers x, True)]"]) auto
  next
    case False
    obtain c w2 where l: "checkLoop e x ?ids
        \<lparr>checked = length ?ids, recovered = 0, failed = 0, cleaned = 0\<rparr> ?w0 = (c, w2)"
      by (cases "checkLoop e x ?ids
        \<lparr>checked = length ?ids, recovered = 0, failed = 0, cleaned = 0\<rparr> ?w0")
    with False have "checkAccountType e x w = (Inr c, w2)"
      by (simp add: checkAccountType_def m)
    with r have rw: "res = Inr c" "w1 = w2" by simp_all
    show ?thesis
    proof (cases "x = accountType")
      case True
      from lf w0 have l0: "lacksFields (accounts ?w0 accountType accountId)" by simp
      from checkLoop_sweeps [OF l0, of e ?ids
          "\<lparr>checked = length ?ids, recovered = 0, failed = 0, cleaned = 0\<rparr>" c w2] l True
      obtain trl where tl: "calls w2 = calls ?w0 @ trl" "enumerated trl = []"
        "accountId \<in> set (index w2 accountType) \<longrightarrow> accountId \<in> set (index ?w0 accountType)"
        "accountId \<in> set (index w accountType) \<and> accountId \<in> set (index w2 accountType)
           \<longrightarrow> (SRem accountType accountId, False) \<in> set trl"
        "(if accountId \<in> set (index w accountType) then 1 else 0) \<le> cleaned c"
        by auto
      show ?thesis
        using tl w0 rw True
        by (intro exI [of _ "(SMembers x, True) # trl"]) (auto split: if_splits)
    next
      case False
      have la: "leavesAlone accountType accountId ?w0 w2"
        using checkLoop_other_type [of accountType x accountId ?w0 e ?ids
            "\<lparr>checked = length ?ids, recovered = 0, failed = 0, cleaned = 0\<rparr>"] False l
        by simp
      from checkLoop_trace [of e x ?ids
          "\<lparr>checked = length ?ids, recovered = 0, failed = 0, cleaned = 0\<rparr>" ?w0] l
      obtain trl where tl: "calls w2 = calls ?w0 @ trl" "enumerated trl = []"
        by auto
      have ns: "(SMembers accountType, True) \<notin> set ((SMembers x, True) # trl)"
        using False tl(2) enumerated_mem [of accountType True trl] by auto
      show ?thesis
        using tl w0 rw la ns
        by (intro exI [of _ "(SMembers x, True) # trl"]) (simp add: leavesAlone_def)
    qed
  qed
qed

lemma typesLoop_sweeps:
  "lacksFields (accounts w accountType accountId) \<Longrightarrow>
   typesLoop e ts tot w = (tot', w') \<Longrightarrow>
   \<exists>tr. calls w' = calls w @ tr
     \<and> (accountId \<in> set (index w' accountType) \<longrightarrow> accountId \<in> set (index w accountType))
     \<and> ((SMembers accountType, True) \<in> set tr \<and> accountId \<in> set (index w' accountType)
          \<longrightarrow> (SRem accountType accountId, False) \<in> set tr)
     \<and> ((SMembers accountType, True) \<in> set tr \<and> accountId \<in> set (index w accountType)
          \<longrightarrow> cleaned tot + 1 \<le> cleaned tot')
     \<and> cleaned tot \<le> cleaned tot'"
proof (induction ts arbitrary: tot w)
  case Nil
  then show ?case by simp
next
  case (Cons x ts)
  obtain res w1 where s: "checkAccountType e x w = (res, w1)"
    by (cases "checkAccountType e x w")
  from checkAccountType_sweeps [OF Cons.prems(1) s]
  obtain tr1 where t1: "calls w1 = calls w @ tr1"
    "accountId \<in> set (index w1 accountType) \<longrightarrow> accountId \<in> set (index w accountType)"
    "(SMembers accountType, True) \<notin> set tr1 \<longrightarrow>
       (accountId \<in> set (index w1 accountType)) = (accountId \<in> set (index w accountType))"
    "(SMembers accountType, True) \<in> set tr1 \<and> accountId \<in> set (index w1 accountType)
       \<longrightarrow> (SRem accountType accountId, False) \<in> set tr1"
    "(SMembers accountType, True) \<in> set tr1 \<and> accountId \<in> set (index w accountType)
       \<longrightarrow> (\<exists>cs. res = Inr cs \<and> 1 \<le> cleaned cs)"
    by blast
  have l1: "lacksFields (accounts w1 accountType accountId)"
    using checkAccountType_keeps [OF Cons.prems(1), of e x] s Cons.prems(1) by simp
  show ?case
  proof (cases res)
    case (Inl err)
    with Cons.prems(2) s have rest: "typesLoop e ts tot w1 = (tot', w')" by simp
    from Cons.IH [OF l1 rest]
    obtain tr2 where t2: "calls w' = calls w1 @ tr2"
      "accountId \<in> set (index w' accountType) \<longrightarrow> accountId \<in> set (index w1 accountType)"
      "(SMembers accountType, True) \<in> set tr2 \<and> accountId \<in> set (index w' accountType)
         \<longrightarrow> (SRem accountType accountId, False) \<in> set tr2"
      "(SMembers accountType, True) \<in> set tr2 \<and> accountId \<in> set (index w1 accountType)
         \<longrightarrow> cleaned tot + 1 \<le> cleaned tot'"
      "cleaned tot \<le> cleaned tot'"
      by blast
    show ?thesis
      using t1 t2 Inl by (intro exI [of _ "tr1 @ tr2"]) auto
  next
    case (Inr cs)
    with Cons.prems(2) s have rest: "typesLoop e ts
       \<lparr>checked = checked tot + checked cs, recovered = recovered tot + recovered cs,
        failed = failed tot + failed cs, cleaned = cleaned tot + cleaned cs\<rparr> w1 = (tot', w')"
      by simp
    from Cons.IH [OF l1 rest]
    obtain tr2 where t2: "calls w' = calls w1 @ tr2"
      "accountId \<in> set (index w' accountType) \<longrightarrow> accountId \<in> set (index w1 accountType)"
      "(SMembers accountType, True) \<in> set tr2 \<and> accountId \<in> set (index w' accountType)
         \<longrightarrow> (SRem accountType accountId, False) \<in> set tr2"
      "(SMembers accountType, True) \<in> set tr2 \<and> accountId \<in> set (index w1 accountType)
         \<longrightarrow> cleaned tot + cleaned cs + 1 \<le> cleaned tot'"
      "cleaned tot + cleaned cs \<le> cleaned tot'"
      by auto
    show ?thesis
      using t1 t2 Inr by (intro exI [of _ "tr1 @ tr2"]) auto
  qed
qed

text \<open>
  Claim C3, as amended. Take a member of the index of a provider type whose record is
  absent or lacks \<open>autoDisabledAt\<close> or \<open>autoDisabledReason\<close> (the validation treats a
  \<open>null\<close> or empty value like a missing one). Whatever the collaborators do, one
  recovery cycle requests no update of the record of that account and leaves the
  record (and with it \<open>schedulable\<close>) exactly as it was, and the iteration that
  processes the account increments \<open>cleaned\<close> and no other counter. If the cycle
  enumerates the index of that provider type successfully, the account is counted as
  cleaned (the total of cleaned accounts is at least one), and the ID is no longer in
  the index after the cycle unless a removal of that ID from the index has failed
  during the cycle.
\<close>

theorem C3_consistency_cleanup:
  assumes "accountId \<in> set (index w accountType)"
    and "lacksFields (accounts w accountType accountId)"
  shows "recordWrites accountType accountId (calls (snd (runRecoveryCheck e w))) =
         recordWrites accountType accountId (calls w)
     \<and> accounts (snd (runRecoveryCheck e w)) accountType accountId = accounts w accountType accountId
     \<and> fst (checkAccount e accountType accountId c w) = c\<lparr>cleaned := cleaned c + 1\<rparr>
     \<and> ((SMembers accountType, True)
            \<in> set (drop (length (calls w)) (calls (snd (runRecoveryCheck e w)))) \<longrightarrow>
          1 \<le> totalCleaned (fst (runRecoveryCheck e w))
          \<and> ((SRem accountType accountId, False)
                \<notin> set (drop (length (calls w)) (calls (snd (runRecoveryCheck e w)))) \<longrightarrow>
              accountId \<notin> set (index (snd (runRecoveryCheck e w)) accountType)))"
proof -
  obtain startTime w1 where c1: "readClock e w = (startTime, w1)"
    by (cases "readClock e w")
  obtain tot w2 where l: "typesLoop e accountTypes
      \<lparr>checked = 0, recovered = 0, failed = 0, cleaned = 0\<rparr> w1 = (tot, w2)"
    by (cases "typesLoop e accountTypes \<lparr>checked = 0, recovered = 0, failed = 0, cleaned = 0\<rparr> w1")
  obtain endTime w3 where c2: "readClock e w2 = (endTime, w3)"
    by (cases "readClock e w2")
  have run: "runRecoveryCheck e w =
      (\<lparr>totalChecked = checked tot, totalRecovered = recovered tot, totalFailed = failed tot,
        totalCleaned = cleaned tot, duration = int endTime - int startTime\<rparr>, w3)"
    by (simp add: runRecoveryCheck_def c1 l c2)
  have a01: "leavesAlone accountType accountId w w1"
    using leavesAlone_readClock [of accountType accountId w e] c1 by simp
  have a23: "leavesAlone accountType accountId w2 w3"
    using leavesAlone_readClock [of accountType accountId w2 e] c2 by simp
  have k1: "calls w1 = calls w" "index w1 = index w"
    using c1 by (auto simp: readClock_def)
  have k3: "calls w3 = calls w2" "index w3 = index w2"
    using c2 by (auto simp: readClock_def)
  from a01 assms(2) have l1: "lacksFields (accounts w1 accountType accountId)"
    by (simp add: leavesAlone_def)
  from typesLoop_keeps [OF l1, of e accountTypes
      "\<lparr>checked = 0, recovered = 0, failed = 0, cleaned = 0\<rparr>"] l a01 a23
  have keep: "recordWrites accountType accountId (calls w3) = recordWrites accountType accountId (calls w)
      \<and> accounts w3 accountType accountId = accounts w accountType accountId"
    by (simp add: leavesAlone_def)
  from typesLoop_sweeps [OF l1 l]
  obtain tr where t: "calls w2 = calls w1 @ tr"
    "(SMembers accountType, True) \<in> set tr \<and> accountId \<in> set (index w2 accountType)
       \<longrightarrow> (SRem accountType accountId, False) \<in> set tr"
    "(SMembers accountType, True) \<in> set tr \<and> accountId \<in> set (index w1 accountType)
       \<longrightarrow> cleaned \<lparr>checked = 0, recovered = 0, failed = 0, cleaned = 0\<rparr> + 1 \<le> cleaned tot"
    by blast
  have d: "drop (length (calls w)) (calls w3) = tr"
    using t(1) k1 k3 by simp
  have sweep: "(SMembers accountType, True) \<in> set tr \<longrightarrow>
      1 \<le> cleaned tot
      \<and> ((SRem accountType accountId, False) \<notin> set tr \<longrightarrow> accountId \<notin> set (index w3 accountType))"
    using t(2,3) k1 k3 assms(1) by auto
  from keep sweep d run checkAccount_lacksFields [OF assms(2), of e c accountType accountId]
  show ?thesis by simp
qed

theorem C3_consistency_cleanup_witness:
  "''Y'' \<in> set (index driftedWorld ''claude-console'')
   \<and> lacksFields (accounts driftedWorld ''claude-console'' ''Y'')
   \<and> ''Y'' \<notin> set (index (snd (runRecoveryCheck probeFailsEnv driftedWorld)) ''claude-console'')
   \<and> accounts (snd (runRecoveryCheck probeFailsEnv driftedWorld)) ''claude-console'' ''Y'' =
       Some [''schedulable'' \<mapsto> JBool False]
   \<and> 1 \<le> totalCleaned (fst (runRecoveryCheck probeFailsEnv driftedWorld))
   \<and> ''Gone'' \<in> set (index driftedWorld ''claude-console'')
   \<and> lacksFields (accounts driftedWorld ''claude-console'' ''Gone'')
   \<and> ''Gone'' \<notin> set (index (snd (runRecoveryCheck fifthCallFails driftedWorld)) ''claude-console'')"
proof -
  have c0: "length (calls driftedWorld) = 0"
    by (simp add: driftedWorld_def)
  have my: "''Y'' \<in> set (index driftedWorld ''claude-console'')"
    and mg: "''Gone'' \<in> set (index driftedWorld ''claude-console'')"
    by (simp_all add: driftedWorld_def)
  have ly: "lacksFields (accounts driftedWorld ''claude-console'' ''Y'')"
    and lg: "lacksFields (accounts driftedWorld ''claude-console'' ''Gone'')"
    by (simp_all add: lacksFields_def driftedWorld_def)
  have ry: "accounts driftedWorld ''claude-console'' ''Y'' = Some [''schedulable'' \<mapsto> JBool False]"
    by (simp add: driftedWorld_def)
  have ey: "(SMembers ''claude-console'', True)
        \<in> set (calls (snd (runRecoveryCheck probeFailsEnv driftedWorld)))"
    and ny: "(SRem ''claude-console'' ''Y'', False)
        \<notin> set (calls (snd (runRecoveryCheck probeFailsEnv driftedWorld)))"
    by (simp_all add: cycle_defs probeFailsEnv_def driftedWorld_def)
  have eg: "(SMembers ''claude-console'', True)
        \<in> set (calls (snd (runRecoveryCheck fifthCallFails driftedWorld)))"
    and ng: "(SRem ''claude-console'' ''Gone'', False)
        \<notin> set (calls (snd (runRecoveryCheck fifthCallFails driftedWorld)))"
    by (simp_all add: cycle_defs fifthCallFails_def driftedWorld_def)
  from c0 my mg ly lg ry ey ny eg ng
    C3_consistency_cleanup [OF my ly, of probeFailsEnv]
    C3_consistency_cleanup [OF mg lg, of fifthCallFails]
  show ?thesis by simp
qed

text \<open>
  Claim C3 as stated fails: a cycle does not always remove such a member. Here the index
  of the first provider type holds \<open>Y\<close>, whose record lacks the auto-disable fields, and
  the index removal for \<open>Y\<close> throws (the third call of the cycle).
  \<open>_cleanupInconsistentAccount\<close> catches the error, the loop still counts \<open>Y\<close> as
  cleaned, and \<open>Y\<close> is in the index after the cycle.
\<close>

theorem C3_counterexample:
  "''Y'' \<in> set (index strayWorld ''claude-official'')
   \<and> lacksFields (accounts strayWorld ''claude-official'' ''Y'')
   \<and> take 3 (calls (snd (runRecoveryCheck thirdCallFails strayWorld))) =
       [(SMembers ''claude-official'', True), (GetAccount ''claude-official'' ''Y'', True),
        (SRem ''claude-official'' ''Y'', False)]
   \<and> ''Y'' \<in> set (index (snd (runRecoveryCheck thirdCallFails strayWorld)) ''claude-official'')
   \<and> fst (runRecoveryCheck thirdCallFails strayWorld) =
       \<lparr>totalChecked = 1, totalRecovered = 0, totalFailed = 0, totalCleaned = 1, duration = 1\<rparr>"
  by (simp add: cycle_defs lacksFields_def thirdCallFails_def strayWorld_def)

subsection \<open>Containment of errors in a recovery cycle\<close>






















end
